theory Spec2Isabelle
  imports Main
begin

section \<open>Python strings and integers\<close>

text \<open>
  The program is a Python 3 script, so a string is a sequence of Unicode code points and
  an integer is unbounded. A string is modelled as a list of code points (natural
  numbers); \<open>ascii\<close> turns an Isabelle string literal into such a list.
\<close>

type_synonym ustr = "nat list"

definition ascii :: "string \<Rightarrow> ustr" where
  "ascii s = map of_char s"

text \<open>The decimal text of an integer, as \<open>str(n)\<close> and an f-string print it.\<close>

fun str_nat :: "nat \<Rightarrow> ustr" where
  "str_nat n = (if n < 10 then [48 + n] else str_nat (n div 10) @ [48 + n mod 10])"

declare str_nat.simps [simp del]

definition str_int :: "int \<Rightarrow> ustr" where
  "str_int i = (if i < 0 then 0x2D # str_nat (nat (- i)) else str_nat (nat i))"

definition is_digit :: "nat \<Rightarrow> bool" where
  "is_digit c = (0x30 \<le> c \<and> c \<le> 0x39)"

definition digits_value :: "ustr \<Rightarrow> nat" where
  "digits_value ds = foldl (\<lambda>acc d. 10 * acc + (d - 0x30)) 0 ds"

text \<open>\<open>sep.join(xs)\<close>.\<close>

fun join :: "ustr \<Rightarrow> ustr list \<Rightarrow> ustr" where
  "join sep [] = []"
| "join sep [x] = x"
| "join sep (x # y # xs) = x @ sep @ join sep (y # xs)"

section \<open>JSON values\<close>

text \<open>
  What \<open>json.load\<close> returns and \<open>json.dump\<close> accepts. A Python \<open>dict\<close> keeps its keys
  in insertion order, so an object is an association list; \<open>dict_set\<close> is the assignment
  \<open>d[k] = v\<close>. Floating point arithmetic is not modelled: a float is represented by the
  literal it was read from.
\<close>

datatype json =
    JNull
  | JBool bool
  | JInt int
  | JFloat ustr
  | JStr ustr
  | JArr "json list"
  | JObj "(ustr \<times> json) list"

fun dict_set :: "ustr \<Rightarrow> json \<Rightarrow> (ustr \<times> json) list \<Rightarrow> (ustr \<times> json) list" where
  "dict_set k v [] = [(k, v)]"
| "dict_set k v ((k', v') # d) = (if k' = k then (k, v) # d else (k', v') # dict_set k v d)"

definition dict_of_pairs :: "(ustr \<times> json) list \<Rightarrow> (ustr \<times> json) list" where
  "dict_of_pairs ps = foldl (\<lambda>d (k, v). dict_set k v d) [] ps"

text \<open>
  The parts of the Python runtime that rest on the Unicode character database or on
  floating point are parameters of the model, so every theorem holds whatever they do:
  the decimal value of a non-ASCII digit (\<open>int\<close> accepts any Unicode decimal digit), the
  lower-casing of a string that has a non-ASCII character, the text \<open>json.dump\<close> writes
  for a float, and \<open>str(v)\<close> of a float, a list or a dict.
\<close>

record runtime =
  unicode_digit :: "nat \<Rightarrow> nat option"
  unicode_lower :: "ustr \<Rightarrow> ustr"
  float_repr :: "ustr \<Rightarrow> ustr"
  str_other :: "json \<Rightarrow> ustr"

section \<open>json.dump with indent=4\<close>

text \<open>
  \<open>json.dump(tasks, f, indent=4)\<close> with the default \<open>ensure_ascii=True\<close>: a string is
  written between double quotes with the short escapes for the quote, the backslash and
  the usual control characters, the characters from space to tilde as themselves, and
  every other code point as a \<open>\uXXXX\<close> escape in lower-case hexadecimal (a surrogate
  pair above the basic plane). Items are separated by a comma and a newline and indented
  by four spaces per nesting level; a key and its value by a colon and a space; an empty
  list or dict is written \<open>[]\<close> or \<open>{}\<close>.
\<close>

definition hex_digit :: "nat \<Rightarrow> nat" where
  "hex_digit d = (if d < 10 then 0x30 + d else 0x57 + d)"

definition hex4 :: "nat \<Rightarrow> ustr" where
  "hex4 n = [hex_digit (n div 4096 mod 16), hex_digit (n div 256 mod 16),
             hex_digit (n div 16 mod 16), hex_digit (n mod 16)]"

definition escape_char :: "nat \<Rightarrow> ustr" where
  "escape_char c =
     (if c = 0x22 then [0x5C, 0x22]
      else if c = 0x5C then [0x5C, 0x5C]
      else if c = 0x0A then [0x5C, 0x6E]
      else if c = 0x0D then [0x5C, 0x72]
      else if c = 0x09 then [0x5C, 0x74]
      else if c = 0x08 then [0x5C, 0x62]
      else if c = 0x0C then [0x5C, 0x66]
      else if 0x20 \<le> c \<and> c \<le> 0x7E then [c]
      else if c < 0x10000 then [0x5C, 0x75] @ hex4 c
      else (let n = c - 0x10000;
                s1 = 0xD800 + (n div 1024) mod 1024;
                s2 = 0xDC00 + n mod 1024
            in [0x5C, 0x75] @ hex4 s1 @ [0x5C, 0x75] @ hex4 s2))"

definition escape_chars :: "ustr \<Rightarrow> ustr" where
  "escape_chars s = concat (map escape_char s)"

definition encode_string :: "ustr \<Rightarrow> ustr" where
  "encode_string s = [0x22] @ escape_chars s @ [0x22]"

definition newline_indent :: "nat \<Rightarrow> ustr" where
  "newline_indent level = 0x0A # replicate (4 * level) 0x20"

fun dumps :: "runtime \<Rightarrow> nat \<Rightarrow> json \<Rightarrow> ustr"
  and dumps_items :: "runtime \<Rightarrow> nat \<Rightarrow> json list \<Rightarrow> ustr"
  and dumps_members :: "runtime \<Rightarrow> nat \<Rightarrow> (ustr \<times> json) list \<Rightarrow> ustr"
where
  "dumps rt level JNull = ascii ''null''"
| "dumps rt level (JBool b) = (if b then ascii ''true'' else ascii ''false'')"
| "dumps rt level (JInt i) = str_int i"
| "dumps rt level (JFloat lit) = float_repr rt lit"
| "dumps rt level (JStr s) = encode_string s"
| "dumps rt level (JArr vs) =
     (if vs = [] then ascii ''[]''
      else ascii ''['' @ newline_indent (level + 1) @ dumps_items rt (level + 1) vs
           @ newline_indent level @ ascii '']'')"
| "dumps rt level (JObj kvs) =
     (if kvs = [] then ascii ''{}''
      else ascii ''{'' @ newline_indent (level + 1) @ dumps_members rt (level + 1) kvs
           @ newline_indent level @ ascii ''}'')"
| "dumps_items rt level [] = []"
| "dumps_items rt level (v # vs) =
     dumps rt level v
     @ (if vs = [] then [] else ascii '','' @ newline_indent level @ dumps_items rt level vs)"
| "dumps_members rt level [] = []"
| "dumps_members rt level ((k, v) # kvs) =
     encode_string k @ ascii '': '' @ dumps rt level v
     @ (if kvs = [] then [] else ascii '','' @ newline_indent level @ dumps_members rt level kvs)"

definition json_dumps :: "runtime \<Rightarrow> json \<Rightarrow> ustr" where
  "json_dumps rt v = dumps rt 0 v"

section \<open>json.load\<close>

text \<open>
  The decoder of the \<open>json\<close> module, as a function from the text to
  \<open>Some\<close> value or \<open>None\<close> for \<open>JSONDecodeError\<close>. Each scanner takes the text
  that is left and returns what it read with the rest. Limits of the interpreter
  (recursion depth, the digit limit of integer conversion, memory) are not modelled.
\<close>

definition is_ws :: "nat \<Rightarrow> bool" where
  "is_ws c = (c = 0x20 \<or> c = 0x09 \<or> c = 0x0A \<or> c = 0x0D)"

definition skip_ws :: "ustr \<Rightarrow> ustr" where
  "skip_ws s = dropWhile is_ws s"

definition hex_val :: "nat \<Rightarrow> nat option" where
  "hex_val c =
     (if 0x30 \<le> c \<and> c \<le> 0x39 then Some (c - 0x30)
      else if 0x61 \<le> c \<and> c \<le> 0x66 then Some (c - 0x57)
      else if 0x41 \<le> c \<and> c \<le> 0x46 then Some (c - 0x37)
      else None)"

definition parse_hex4 :: "ustr \<Rightarrow> nat option" where
  "parse_hex4 s =
     (case s of
        a # b # c # d # _ \<Rightarrow>
          (case (hex_val a, hex_val b, hex_val c, hex_val d) of
             (Some x, Some y, Some z, Some w) \<Rightarrow> Some (((x * 16 + y) * 16 + z) * 16 + w)
           | _ \<Rightarrow> None)
      | _ \<Rightarrow> None)"

text \<open>
  After \<open>\u\<close>: four hexadecimal digits; a high surrogate directly followed by the escape
  of a low surrogate is joined with it into one code point. The result is the code point
  and the number of characters read.
\<close>

definition decode_u :: "ustr \<Rightarrow> (nat \<times> nat) option" where
  "decode_u s =
     (case parse_hex4 s of
        None \<Rightarrow> None
      | Some uni \<Rightarrow>
          if 0xD800 \<le> uni \<and> uni \<le> 0xDBFF \<and> take 2 (drop 4 s) = [0x5C, 0x75] then
            (case parse_hex4 (drop 6 s) of
               None \<Rightarrow> None
             | Some uni2 \<Rightarrow>
                 if 0xDC00 \<le> uni2 \<and> uni2 \<le> 0xDFFF
                 then Some (0x10000 + ((uni - 0xD800) * 1024 + (uni2 - 0xDC00)), 10)
                 else Some (uni, 4))
          else Some (uni, 4))"

definition unescape :: "nat \<Rightarrow> nat option" where
  "unescape e =
     (if e = 0x22 then Some 0x22
      else if e = 0x5C then Some 0x5C
      else if e = 0x2F then Some 0x2F
      else if e = 0x62 then Some 0x08
      else if e = 0x66 then Some 0x0C
      else if e = 0x6E then Some 0x0A
      else if e = 0x72 then Some 0x0D
      else if e = 0x74 then Some 0x09
      else None)"

text \<open>The text after an opening double quote, up to the closing one (strict mode).\<close>

fun scanstring :: "ustr \<Rightarrow> (ustr \<times> ustr) option" where
  "scanstring [] = None"
| "scanstring (c # s) =
     (if c = 0x22 then Some ([], s)
      else if c = 0x5C then
        (case s of
           [] \<Rightarrow> None
         | e # s' \<Rightarrow>
             if e = 0x75 then
               (case decode_u s' of
                  None \<Rightarrow> None
                | Some (cp, k) \<Rightarrow>
                    (case scanstring (drop k s') of
                       None \<Rightarrow> None
                     | Some (t, r) \<Rightarrow> Some (cp # t, r)))
             else
               (case unescape e of
                  None \<Rightarrow> None
                | Some ch \<Rightarrow>
                    (case scanstring s' of
                       None \<Rightarrow> None
                     | Some (t, r) \<Rightarrow> Some (ch # t, r))))
      else if c < 0x20 then None
      else (case scanstring s of
              None \<Rightarrow> None
            | Some (t, r) \<Rightarrow> Some (c # t, r)))"

text \<open>
  A number is the longest match of
  \<open>(-?(?:0|[1-9][0-9]*))(\.[0-9]+)?([eE][-+]?[0-9]+)?\<close>: an \<open>int\<close> when it has neither
  fraction nor exponent, a float otherwise.
\<close>

definition scan_int :: "ustr \<Rightarrow> ustr" where
  "scan_int s =
     (let sign = (if take 1 s = [0x2D] then [0x2D] else []);
          r = drop (length sign) s
      in case r of
           [] \<Rightarrow> []
         | d # _ \<Rightarrow>
             if d = 0x30 then sign @ [d]
             else if is_digit d then sign @ takeWhile is_digit r
             else [])"

definition scan_frac :: "ustr \<Rightarrow> ustr" where
  "scan_frac s =
     (case s of
        [] \<Rightarrow> []
      | c # r \<Rightarrow>
          if c = 0x2E \<and> takeWhile is_digit r \<noteq> [] then c # takeWhile is_digit r else [])"

definition scan_exp :: "ustr \<Rightarrow> ustr" where
  "scan_exp s =
     (case s of
        [] \<Rightarrow> []
      | c # r \<Rightarrow>
          if c = 0x65 \<or> c = 0x45 then
            (case r of
               [] \<Rightarrow> []
             | g # r' \<Rightarrow>
                 if (g = 0x2B \<or> g = 0x2D) \<and> takeWhile is_digit r' \<noteq> []
                 then c # g # takeWhile is_digit r'
                 else if takeWhile is_digit r \<noteq> [] then c # takeWhile is_digit r
                 else [])
          else [])"

definition scan_number :: "ustr \<Rightarrow> (json \<times> ustr) option" where
  "scan_number s =
     (let integer = scan_int s in
      if integer = [] then None
      else
        let r1 = drop (length integer) s;
            frac = scan_frac r1;
            r2 = drop (length frac) r1;
            exp = scan_exp r2;
            r3 = drop (length exp) r2
        in if frac = [] \<and> exp = [] then
             Some (JInt (if take 1 integer = [0x2D]
                         then - int (digits_value (drop 1 integer))
                         else int (digits_value integer)), r3)
           else Some (JFloat (integer @ frac @ exp), r3))"

definition starts_with :: "ustr \<Rightarrow> ustr \<Rightarrow> bool" where
  "starts_with p s = (take (length p) s = p)"

text \<open>The values that are neither a string nor a container, in the scanner's order.\<close>

definition scan_constant :: "ustr \<Rightarrow> (json \<times> ustr) option" where
  "scan_constant s =
     (if starts_with (ascii ''null'') s then Some (JNull, drop 4 s)
      else if starts_with (ascii ''true'') s then Some (JBool True, drop 4 s)
      else if starts_with (ascii ''false'') s then Some (JBool False, drop 5 s)
      else
        (case scan_number s of
           Some res \<Rightarrow> Some res
         | None \<Rightarrow>
             if starts_with (ascii ''NaN'') s then Some (JFloat (ascii ''NaN''), drop 3 s)
             else if starts_with (ascii ''Infinity'') s
               then Some (JFloat (ascii ''Infinity''), drop 8 s)
             else if starts_with (ascii ''-Infinity'') s
               then Some (JFloat (ascii ''-Infinity''), drop 9 s)
             else None))"

lemma length_skip_ws: "length (skip_ws s) \<le> length s"
  by (simp add: skip_ws_def length_dropWhile_le)

lemma scanstring_length: "scanstring s = Some (t, r) \<Longrightarrow> length r < length s"
proof (induction s arbitrary: t r rule: scanstring.induct)
  case 1
  then show ?case by simp
next
  case (2 c s)
  then show ?case
    by (fastforce split: if_splits list.splits option.splits prod.splits)
qed

text \<open>
  The recursive descent over containers. \<open>parse_elems\<close> reads the items of a list that
  is not empty, \<open>parse_members\<close> the pairs of a dict that is not empty (a key must open
  with a double quote). The two comparisons of lengths are there for the termination
  proof only: \<open>parse_value_length\<close> below shows that they always hold.
\<close>

function parse_value :: "ustr \<Rightarrow> (json \<times> ustr) option"
  and parse_elems :: "ustr \<Rightarrow> (json list \<times> ustr) option"
  and parse_members :: "ustr \<Rightarrow> ((ustr \<times> json) list \<times> ustr) option"
where
  "parse_value s =
     (case s of
        [] \<Rightarrow> None
      | c # r \<Rightarrow>
          if c = 0x22 then
            (case scanstring r of
               None \<Rightarrow> None
             | Some (t, r') \<Rightarrow> Some (JStr t, r'))
          else if c = 0x7B then
            (case skip_ws r of
               [] \<Rightarrow> None
             | c' # r' \<Rightarrow>
                 if c' = 0x7D then Some (JObj [], r')
                 else (case parse_members (c' # r') of
                         None \<Rightarrow> None
                       | Some (ps, r'') \<Rightarrow> Some (JObj (dict_of_pairs ps), r'')))
          else if c = 0x5B then
            (case skip_ws r of
               [] \<Rightarrow> None
             | c' # r' \<Rightarrow>
                 if c' = 0x5D then Some (JArr [], r')
                 else (case parse_elems (c' # r') of
                         None \<Rightarrow> None
                       | Some (vs, r'') \<Rightarrow> Some (JArr vs, r'')))
          else scan_constant s)"
| "parse_elems s =
     (case parse_value s of
        None \<Rightarrow> None
      | Some (v, r) \<Rightarrow>
          if length r \<le> length s then
            (case skip_ws r of
               [] \<Rightarrow> None
             | c # r' \<Rightarrow>
                 if c = 0x5D then Some ([v], r')
                 else if c = 0x2C then
                   (case parse_elems (skip_ws r') of
                      None \<Rightarrow> None
                    | Some (vs, r'') \<Rightarrow> Some (v # vs, r''))
                 else None)
          else None)"
| "parse_members s =
     (case s of
        [] \<Rightarrow> None
      | q # r \<Rightarrow>
          if q = 0x22 then
            (case scanstring r of
               None \<Rightarrow> None
             | Some (k, r1) \<Rightarrow>
                 (case skip_ws r1 of
                    [] \<Rightarrow> None
                  | c # r2 \<Rightarrow>
                      if c = 0x3A then
                        (case parse_value (skip_ws r2) of
                           None \<Rightarrow> None
                         | Some (v, r3) \<Rightarrow>
                             if length r3 \<le> length s then
                               (case skip_ws r3 of
                                  [] \<Rightarrow> None
                                | c' # r4 \<Rightarrow>
                                    if c' = 0x7D then Some ([(k, v)], r4)
                                    else if c' = 0x2C then
                                      (case parse_members (skip_ws r4) of
                                         None \<Rightarrow> None
                                       | Some (ps, r5) \<Rightarrow> Some ((k, v) # ps, r5))
                                    else None)
                             else None)
                      else None))
          else None)"
  by pat_completeness auto
termination
proof (relation "measure (\<lambda>x. case x of Inl s \<Rightarrow> 2 * length s
                                   | Inr (Inl s) \<Rightarrow> 2 * length s + 1
                                   | Inr (Inr s) \<Rightarrow> 2 * length s + 1)", goal_cases)
  case 1
  then show ?case by simp
next
  case (2 s c r c' r')
  have "length (skip_ws r) \<le> length r" by (rule length_skip_ws)
  with 2 show ?case by simp
next
  case (3 s c r c' r')
  have "length (skip_ws r) \<le> length r" by (rule length_skip_ws)
  with 3 show ?case by simp
next
  case (4 s)
  then show ?case by simp
next
  case (5 s x v r c r')
  have "length (skip_ws r') \<le> length r'" "length (skip_ws r) \<le> length r"
    by (rule length_skip_ws)+
  with 5 show ?case by simp
next
  case (6 s q r x k r1 c r2)
  have "length (skip_ws r2) \<le> length r2" "length (skip_ws r1) \<le> length r1"
    by (rule length_skip_ws)+
  moreover have "length r1 < length r" using 6 by (auto dest: scanstring_length)
  ultimately show ?case using 6 by simp
next
  case (7 s q r x k r1 c r2 y v r3 c' r4)
  have "length (skip_ws r4) \<le> length r4" "length (skip_ws r3) \<le> length r3"
    by (rule length_skip_ws)+
  with 7 show ?case by simp
qed

declare parse_value.simps [simp del] parse_elems.simps [simp del] parse_members.simps [simp del]

text \<open>
  \<open>json.loads\<close>: a text that opens with a byte order mark is refused; whitespace may
  stand before and after the one value, and nothing else.
\<close>

definition json_loads :: "ustr \<Rightarrow> json option" where
  "json_loads s =
     (if take 1 s = [0xFEFF] then None
      else
        (case parse_value (skip_ws s) of
           None \<Rightarrow> None
         | Some (v, r) \<Rightarrow> if skip_ws r = [] then Some v else None))"

section \<open>The world: the task file and standard output\<close>

text \<open>
  The state a command runs in: the content of \<open>tasks.json\<close> (\<open>None\<close> when the file
  does not exist), whether opening it for writing fails (\<open>Some e\<close>: it raises
  \<open>IOError\<close> with the text \<open>e\<close>), the strings printed so far (one per call of
  \<open>print\<close>) and the storage operations performed so far. The content is the text
  that reading the file gave; \<open>load_tasks_bytes\<close> below starts from the bytes of the
  file, whose decoding can fail.
\<close>

datatype io_op = Load | Store ustr | StoreFailed

record world =
  json_file :: "ustr option"
  write_error :: "ustr option"
  out :: "ustr list"
  ops :: "io_op list"

definition py_print :: "ustr \<Rightarrow> world \<Rightarrow> world" where
  "py_print s w = w\<lparr>out := out w @ [s]\<rparr>"

definition JSON_FILE :: ustr where
  "JSON_FILE = ascii ''tasks.json''"

text \<open>How a command ends: it returns, it calls \<open>sys.exit(n)\<close>, or an exception escapes.\<close>

datatype exn = KeyError | TypeError | AttributeError | UnicodeDecodeError

datatype outcome = Done | Exit nat | Raised exn

definition exit_status :: "outcome \<Rightarrow> nat" where
  "exit_status oc = (case oc of Done \<Rightarrow> 0 | Exit n \<Rightarrow> n | Raised e \<Rightarrow> 1)"

section \<open>Storage accessor\<close>

text \<open>
  \<open>load_tasks\<close> on a file that was read as the text \<open>json_file w\<close>. The handler of the
  source catches \<open>json.JSONDecodeError\<close>, which is the \<open>None\<close> of \<open>json_loads\<close>.
\<close>

definition load_tasks :: "world \<Rightarrow> json list \<times> world" where
  "load_tasks w =
     (let w' = w\<lparr>ops := ops w @ [Load]\<rparr> in
      case json_file w of
        None \<Rightarrow> ([], w')
      | Some content \<Rightarrow>
          (case json_loads content of
             None \<Rightarrow> ([], w')
           | Some tasks \<Rightarrow> (case tasks of JArr ts \<Rightarrow> (ts, w') | _ \<Rightarrow> ([], w'))))"

text \<open>
  The file is opened in text mode, so \<open>json.load\<close> first reads and decodes its bytes;
  the encoding is taken to be UTF-8, the default of Linux and macOS. The decoder is
  strict: a byte that starts no character, a missing or wrong continuation byte, an
  overlong form, a surrogate and a code point above \<open>10FFFF\<close> are errors (\<open>None\<close>).
\<close>

definition is_cont :: "nat \<Rightarrow> bool" where
  "is_cont b = (0x80 \<le> b \<and> b \<le> 0xBF)"

fun utf8_decode :: "nat list \<Rightarrow> ustr option" where
  "utf8_decode [] = Some []"
| "utf8_decode (b # bs) =
     (if b < 0x80 then map_option (Cons b) (utf8_decode bs)
      else if 0xC2 \<le> b \<and> b \<le> 0xDF then
        (case bs of
           b1 # r \<Rightarrow>
             if is_cont b1
             then map_option (Cons ((b - 0xC0) * 0x40 + (b1 - 0x80))) (utf8_decode r)
             else None
         | _ \<Rightarrow> None)
      else if 0xE0 \<le> b \<and> b \<le> 0xEF then
        (case bs of
           b1 # b2 # r \<Rightarrow>
             if (if b = 0xE0 then 0xA0 else 0x80) \<le> b1 \<and> b1 \<le> (if b = 0xED then 0x9F else 0xBF)
                \<and> is_cont b2
             then map_option (Cons ((b - 0xE0) * 0x1000 + (b1 - 0x80) * 0x40 + (b2 - 0x80)))
                    (utf8_decode r)
             else None
         | _ \<Rightarrow> None)
      else if 0xF0 \<le> b \<and> b \<le> 0xF4 then
        (case bs of
           b1 # b2 # b3 # r \<Rightarrow>
             if (if b = 0xF0 then 0x90 else 0x80) \<le> b1 \<and> b1 \<le> (if b = 0xF4 then 0x8F else 0xBF)
                \<and> is_cont b2 \<and> is_cont b3
             then map_option (Cons ((b - 0xF0) * 0x40000 + (b1 - 0x80) * 0x1000
                                    + (b2 - 0x80) * 0x40 + (b3 - 0x80)))
                    (utf8_decode r)
             else None
         | _ \<Rightarrow> None)
      else None)"

text \<open>Text mode gives every line end, \<open>CR LF\<close> and \<open>CR\<close> too, as \<open>LF\<close>.\<close>

fun universal_newlines :: "ustr \<Rightarrow> ustr" where
  "universal_newlines [] = []"
| "universal_newlines [c] = [if c = 0x0D then 0x0A else c]"
| "universal_newlines (c # d # s) =
     (if c = 0x0D \<and> d = 0x0A then 0x0A # universal_newlines s
      else (if c = 0x0D then 0x0A else c) # universal_newlines (d # s))"

definition read_text :: "nat list \<Rightarrow> exn + ustr" where
  "read_text bs =
     (case utf8_decode bs of
        None \<Rightarrow> Inl UnicodeDecodeError
      | Some s \<Rightarrow> Inr (universal_newlines s))"

text \<open>
  \<open>load_tasks\<close> from the bytes of the task file (\<open>None\<close>: there is no file). The
  error of the decoder is a \<open>ValueError\<close> that is no \<open>json.JSONDecodeError\<close>, so the
  handler does not catch it and it escapes to the caller. On bytes that decode, the
  result is that of \<open>load_tasks\<close> on the text. The limits of the interpreter (the depth
  of the recursion of the parser, the number of digits of an integer) and the errors of
  \<open>open\<close> on a file that exists are not part of the model.
\<close>

definition load_tasks_bytes :: "nat list option \<Rightarrow> exn + json list" where
  "load_tasks_bytes bytes =
     (case bytes of
        None \<Rightarrow> Inr []
      | Some bs \<Rightarrow>
          (case read_text bs of
             Inl e \<Rightarrow> Inl e
           | Inr content \<Rightarrow>
               Inr (fst (load_tasks \<lparr>json_file = Some content, write_error = None,
                                     out = [], ops = []\<rparr>))))"

definition save_tasks :: "runtime \<Rightarrow> json list \<Rightarrow> world \<Rightarrow> world" where
  "save_tasks rt tasks w =
     (case write_error w of
        None \<Rightarrow>
          w\<lparr>json_file := Some (json_dumps rt (JArr tasks)),
            ops := ops w @ [Store (json_dumps rt (JArr tasks))]\<rparr>
      | Some e \<Rightarrow>
          py_print (ascii ''Error: Could not save tasks to '' @ JSON_FILE @ ascii ''. '' @ e)
            (w\<lparr>ops := ops w @ [StoreFailed]\<rparr>))"

section \<open>Task operations\<close>

definition show_help :: "world \<Rightarrow> world" where
  "show_help w =
     foldl (\<lambda>w s. py_print s w) w
       [ascii ''--- Task Tracker Help ---'',
        ascii ''Usage:'',
        ascii ''  python task_tracker.py list                : Show all tasks'',
        ascii ''  python task_tracker.py add \"<description>\" : Add a new task'',
        ascii ''  python task_tracker.py complete <number>   : Mark a task as complete'',
        ascii ''  python task_tracker.py remove <number>     : Remove a task'',
        ascii ''  python task_tracker.py help                : Show this help message'',
        ascii ''\<newline>Examples:'',
        ascii ''  python task_tracker.py add \"Buy milk and eggs\"'',
        ascii ''  python task_tracker.py complete 3'']"

definition new_task :: "ustr \<Rightarrow> json" where
  "new_task description =
     JObj [(ascii ''description'', JStr description), (ascii ''status'', JStr (ascii ''pending''))]"

definition add_task :: "runtime \<Rightarrow> ustr \<Rightarrow> world \<Rightarrow> outcome \<times> world" where
  "add_task rt description w =
     (if description = [] then (Done, py_print (ascii ''Error: Cannot add an empty task.'') w)
      else
        let (tasks, w1) = load_tasks w;
            w2 = save_tasks rt (tasks @ [new_task description]) w1
        in (Done, py_print (ascii ''Task added: \"'' @ description @ ascii ''\"'') w2))"

text \<open>
  What an f-string prints for a value: a string as it is, \<open>None\<close>, \<open>True\<close>,
  \<open>False\<close> and an integer by their names and digits, anything else by the runtime.
\<close>

definition py_str :: "runtime \<Rightarrow> json \<Rightarrow> ustr" where
  "py_str rt v =
     (case v of
        JStr s \<Rightarrow> s
      | JNull \<Rightarrow> ascii ''None''
      | JBool b \<Rightarrow> (if b then ascii ''True'' else ascii ''False'')
      | JInt i \<Rightarrow> str_int i
      | _ \<Rightarrow> str_other rt v)"

text \<open>The line \<open>list_tasks\<close> prints for the dict \<open>d\<close> at the 1-based position \<open>i\<close>.\<close>

definition status_icon :: "(ustr \<times> json) list \<Rightarrow> ustr" where
  "status_icon d =
     (if map_of d (ascii ''status'') = Some (JStr (ascii ''complete''))
      then ascii ''[x]'' else ascii ''[ ]'')"

definition task_line :: "runtime \<Rightarrow> nat \<Rightarrow> (ustr \<times> json) list \<Rightarrow> ustr" where
  "task_line rt i d =
     ascii ''  '' @ str_int (int i) @ ascii ''. '' @ status_icon d @ ascii '' ''
     @ py_str rt (case map_of d (ascii ''description'') of
                    None \<Rightarrow> JStr (ascii ''No description'')
                  | Some v \<Rightarrow> v)"

text \<open>
  The loop of \<open>list_tasks\<close>. \<open>task.get\<close> exists for a dict only: on any other entry
  the loop stops with \<open>AttributeError\<close>, the lines before it already printed.
\<close>

fun print_tasks :: "runtime \<Rightarrow> nat \<Rightarrow> json list \<Rightarrow> world \<Rightarrow> outcome \<times> world" where
  "print_tasks rt i [] w = (Done, w)"
| "print_tasks rt i (task # rest) w =
     (case task of
        JObj d \<Rightarrow> print_tasks rt (i + 1) rest (py_print (task_line rt i d) w)
      | _ \<Rightarrow> (Raised AttributeError, w))"

definition list_tasks :: "runtime \<Rightarrow> world \<Rightarrow> outcome \<times> world" where
  "list_tasks rt w =
     (let (tasks, w1) = load_tasks w in
      if tasks = [] then
        (Done, py_print (ascii ''No tasks found. Add one with the 'add' command!'') w1)
      else
        (case print_tasks rt 1 tasks (py_print (ascii ''--- Your Tasks ---'') w1) of
           (Done, w2) \<Rightarrow> (Done, py_print (ascii ''------------------'') w2)
         | (oc, w2) \<Rightarrow> (oc, w2)))"

text \<open>
  \<open>int(s)\<close> for a string: whitespace around the number is skipped, one sign may stand
  before the digits, and single underscores may stand between digits. A non-ASCII
  character counts when it is a Unicode space or decimal digit. \<open>None\<close> is
  \<open>ValueError\<close>.
\<close>

definition is_ascii_space :: "nat \<Rightarrow> bool" where
  "is_ascii_space c = (c = 0x20 \<or> (0x09 \<le> c \<and> c \<le> 0x0D))"

definition is_unicode_space :: "nat \<Rightarrow> bool" where
  "is_unicode_space c =
     (c = 0x85 \<or> c = 0xA0 \<or> c = 0x1680 \<or> (0x2000 \<le> c \<and> c \<le> 0x200A) \<or> c = 0x2028
      \<or> c = 0x2029 \<or> c = 0x202F \<or> c = 0x205F \<or> c = 0x3000)"

definition to_ascii_digit :: "runtime \<Rightarrow> nat \<Rightarrow> nat option" where
  "to_ascii_digit rt c =
     (if c < 127 then Some c
      else if is_unicode_space c then Some 0x20
      else map_option (\<lambda>d. 0x30 + d) (unicode_digit rt c))"

fun underscores_ok :: "ustr \<Rightarrow> bool" where
  "underscores_ok [] = False"
| "underscores_ok [c] = is_digit c"
| "underscores_ok (c # d # s) =
     (is_digit c \<and> (if d = 0x5F then (case s of [] \<Rightarrow> False | e # _ \<Rightarrow> is_digit e \<and> underscores_ok s)
                     else underscores_ok (d # s)))"

definition py_int_ascii :: "ustr \<Rightarrow> int option" where
  "py_int_ascii s =
     (let s1 = dropWhile is_ascii_space s;
          negative = (take 1 s1 = [0x2D]);
          s2 = (if take 1 s1 = [0x2D] \<or> take 1 s1 = [0x2B] then drop 1 s1 else s1);
          body = takeWhile (\<lambda>c. is_digit c \<or> c = 0x5F) s2;
          rest = dropWhile (\<lambda>c. is_digit c \<or> c = 0x5F) s2
      in if underscores_ok body \<and> dropWhile is_ascii_space rest = []
         then Some ((if negative then - 1 else 1) * int (digits_value (filter is_digit body)))
         else None)"

definition py_int :: "runtime \<Rightarrow> ustr \<Rightarrow> int option" where
  "py_int rt s =
     (if list_all (\<lambda>c. to_ascii_digit rt c \<noteq> None) s
      then py_int_ascii (map (\<lambda>c. the (to_ascii_digit rt c)) s)
      else None)"

text \<open>\<open>v[k]\<close> for a string key: \<open>KeyError\<close> on a dict without it, \<open>TypeError\<close> on anything else.\<close>

definition getitem :: "json \<Rightarrow> ustr \<Rightarrow> exn + json" where
  "getitem v k =
     (case v of
        JObj d \<Rightarrow> (case map_of d k of None \<Rightarrow> Inl KeyError | Some x \<Rightarrow> Inr x)
      | _ \<Rightarrow> Inl TypeError)"

definition setitem :: "json \<Rightarrow> ustr \<Rightarrow> json \<Rightarrow> json" where
  "setitem v k x = (case v of JObj d \<Rightarrow> JObj (dict_set k x d) | _ \<Rightarrow> v)"

text \<open>
  \<open>_update_task\<close>. The index is an \<open>int\<close>; inside the range \<open>0 \<le> task_index < len(tasks)\<close>
  it is used as a list position. The confirmation is printed after the save, so a task
  without a description is saved before \<open>KeyError\<close> escapes.
\<close>

definition update_task :: "runtime \<Rightarrow> ustr \<Rightarrow> ustr \<Rightarrow> world \<Rightarrow> outcome \<times> world" where
  "update_task rt task_index_str action w =
     (case py_int rt task_index_str of
        None \<Rightarrow>
          (Done, py_print (ascii ''Error: Invalid task number '' @ [0x27] @ task_index_str @ [0x27]
                           @ ascii ''. Must be an integer.'') w)
      | Some n \<Rightarrow>
          let task_index = n - 1;
              (tasks, w1) = load_tasks w
          in if 0 \<le> task_index \<and> task_index < int (length tasks) then
               (let i = nat task_index in
                if action = ascii ''complete'' then
                  (case getitem (tasks ! i) (ascii ''status'') of
                     Inl e \<Rightarrow> (Raised e, w1)
                   | Inr st \<Rightarrow>
                       if st = JStr (ascii ''complete'') then
                         (Done, py_print (ascii ''Task '' @ str_int (task_index + 1)
                                          @ ascii '' is already marked as complete.'') w1)
                       else
                         let tasks' = tasks[i := setitem (tasks ! i) (ascii ''status'')
                                                   (JStr (ascii ''complete''))];
                             w2 = save_tasks rt tasks' w1
                         in (case getitem (tasks' ! i) (ascii ''description'') of
                               Inl e \<Rightarrow> (Raised e, w2)
                             | Inr d \<Rightarrow>
                                 (Done, py_print (ascii ''Task '' @ str_int (task_index + 1)
                                                  @ ascii '' marked as complete: \"'' @ py_str rt d
                                                  @ ascii ''\"'') w2)))
                else if action = ascii ''remove'' then
                  (let removed_task = tasks ! i;
                       tasks' = take i tasks @ drop (i + 1) tasks;
                       w2 = save_tasks rt tasks' w1
                   in case getitem removed_task (ascii ''description'') of
                        Inl e \<Rightarrow> (Raised e, w2)
                      | Inr d \<Rightarrow>
                          (Done, py_print (ascii ''Task '' @ str_int (task_index + 1)
                                           @ ascii '' removed: \"'' @ py_str rt d @ ascii ''\"'') w2))
                else (Done, w1))
             else
               (let w2 = py_print (ascii ''Error: Task number '' @ str_int (task_index + 1)
                                   @ ascii '' not found.'') w1
                in if tasks = [] then (Done, py_print (ascii ''You have no tasks.'') w2)
                   else (Done, py_print (ascii ''Valid task numbers are 1 to ''
                                         @ str_int (int (length tasks)) @ ascii ''.'') w2)))"

definition complete_task :: "runtime \<Rightarrow> ustr \<Rightarrow> world \<Rightarrow> outcome \<times> world" where
  "complete_task rt task_index_str w = update_task rt task_index_str (ascii ''complete'') w"

definition remove_task :: "runtime \<Rightarrow> ustr \<Rightarrow> world \<Rightarrow> outcome \<times> world" where
  "remove_task rt task_index_str w = update_task rt task_index_str (ascii ''remove'') w"

section \<open>Command dispatcher\<close>

text \<open>
  \<open>str.lower\<close>: the ASCII capitals become small letters; a string with a non-ASCII
  character is lower-cased by the runtime.
\<close>

definition ascii_lower :: "nat \<Rightarrow> nat" where
  "ascii_lower c = (if 0x41 \<le> c \<and> c \<le> 0x5A then c + 0x20 else c)"

definition py_lower :: "runtime \<Rightarrow> ustr \<Rightarrow> ustr" where
  "py_lower rt s = (if list_all (\<lambda>c. c < 128) s then map ascii_lower s else unicode_lower rt s)"

text \<open>\<open>main\<close>, with \<open>sys.argv\<close> as its argument (the script's name first).\<close>

definition main :: "runtime \<Rightarrow> ustr list \<Rightarrow> world \<Rightarrow> outcome \<times> world" where
  "main rt argv w =
     (if length argv < 2 then
        (Exit 1, show_help (py_print (ascii ''Error: No command provided.'') w))
      else
        let command = py_lower rt (argv ! 1) in
        if command = ascii ''list'' then list_tasks rt w
        else if command = ascii ''add'' then
          (if length argv < 3 then
             (Done, py_print (ascii ''Example: python task_tracker.py add \"Buy groceries\"'')
                      (py_print (ascii ''Error: 'add' command requires a task description.'') w))
           else add_task rt (join (ascii '' '') (drop 2 argv)) w)
        else if command = ascii ''complete'' then
          (if length argv < 3 then
             (Done, py_print (ascii ''Example: python task_tracker.py complete 2'')
                      (py_print (ascii ''Error: 'complete' command requires a task number.'') w))
           else complete_task rt (argv ! 2) w)
        else if command = ascii ''remove'' then
          (if length argv < 3 then
             (Done, py_print (ascii ''Example: python task_tracker.py remove 1'')
                      (py_print (ascii ''Error: 'remove' command requires a task number.'') w))
           else remove_task rt (argv ! 2) w)
        else if command = ascii ''help'' then (Done, show_help w)
        else
          (Exit 1, show_help (py_print (ascii ''Error: Unknown command '' @ [0x27] @ command @ [0x27]) w)))"

section \<open>Well-formed stored data\<close>

text \<open>
  The entries that \<open>list_tasks\<close> can print are the dicts.
\<close>

definition is_dict :: "json \<Rightarrow> bool" where
  "is_dict v = (case v of JObj d \<Rightarrow> True | _ \<Rightarrow> False)"

definition the_dict :: "json \<Rightarrow> (ustr \<times> json) list" where
  "the_dict v = (case v of JObj d \<Rightarrow> d | _ \<Rightarrow> [])"

text \<open>
  \<open>json.dump\<close> writes a code point above \<open>FFFF\<close> as a pair of surrogate escapes, and
  \<open>json.load\<close> joins a high surrogate escape that is directly followed by a low one.
  So the strings that come back unchanged are those over the code points of Unicode in
  which no high surrogate stands directly before a low one (\<open>text_ok\<close>); every string
  that Python decoded from well-formed text is of this kind.
\<close>

definition is_high :: "nat \<Rightarrow> bool" where
  "is_high c = (0xD800 \<le> c \<and> c \<le> 0xDBFF)"

definition is_low :: "nat \<Rightarrow> bool" where
  "is_low c = (0xDC00 \<le> c \<and> c \<le> 0xDFFF)"

fun no_split_pair :: "ustr \<Rightarrow> bool" where
  "no_split_pair (a # b # s) = (\<not> (is_high a \<and> is_low b) \<and> no_split_pair (b # s))"
| "no_split_pair s = True"

definition text_ok :: "ustr \<Rightarrow> bool" where
  "text_ok s = (list_all (\<lambda>c. c \<le> 0x10FFFF) s \<and> no_split_pair s)"

text \<open>
  The values for which loading inverts saving: no floats (their text is left to the
  runtime), strings as above, and distinct keys in every object, as in every Python dict.
\<close>

fun json_ok :: "json \<Rightarrow> bool"
  and json_ok_list :: "json list \<Rightarrow> bool"
  and json_ok_members :: "(ustr \<times> json) list \<Rightarrow> bool"
where
  "json_ok JNull = True"
| "json_ok (JBool b) = True"
| "json_ok (JInt i) = True"
| "json_ok (JFloat lit) = False"
| "json_ok (JStr s) = text_ok s"
| "json_ok (JArr vs) = json_ok_list vs"
| "json_ok (JObj kvs) = (distinct (map fst kvs) \<and> json_ok_members kvs)"
| "json_ok_list [] = True"
| "json_ok_list (v # vs) = (json_ok v \<and> json_ok_list vs)"
| "json_ok_members [] = True"
| "json_ok_members ((k, v) # kvs) = (text_ok k \<and> json_ok v \<and> json_ok_members kvs)"

section \<open>The commands and some concrete states\<close>

text \<open>The five command names that \<open>main\<close> knows.\<close>

definition commands :: "ustr list" where
  "commands = [ascii ''list'', ascii ''add'', ascii ''complete'', ascii ''remove'', ascii ''help'']"

text \<open>
  A runtime for running the model on ASCII input, where the choices it leaves open play
  no part, and some states of the world: no task file; a file of two tasks, \<open>a\<close> pending
  and \<open>b\<close> complete, with the list it loads as; a file whose first task has odd fields;
  a directory that cannot be written, without and with the file of two tasks; and a file
  whose only entry is a number.
\<close>

definition plain_runtime :: runtime where
  "plain_runtime =
     \<lparr>unicode_digit = (\<lambda>c. None), unicode_lower = (\<lambda>s. s),
      float_repr = (\<lambda>lit. lit), str_other = (\<lambda>v. [])\<rparr>"

definition empty_world :: world where
  "empty_world = \<lparr>json_file = None, write_error = None, out = [], ops = []\<rparr>"

definition two_tasks_world :: world where
  "two_tasks_world =
     \<lparr>json_file = Some (ascii ''[{\"description\": \"a\", \"status\": \"pending\"}, {\"description\": \"b\", \"status\": \"complete\"}]''),
      write_error = None, out = [], ops = []\<rparr>"

definition two_tasks :: "json list" where
  "two_tasks =
     [JObj [(ascii ''description'', JStr (ascii ''a'')), (ascii ''status'', JStr (ascii ''pending''))],
      JObj [(ascii ''description'', JStr (ascii ''b'')), (ascii ''status'', JStr (ascii ''complete''))]]"

definition odd_tasks_world :: world where
  "odd_tasks_world =
     \<lparr>json_file = Some (ascii ''[{\"status\": 1}, {\"description\": \"b\", \"status\": \"complete\"}]''),
      write_error = None, out = [], ops = []\<rparr>"

definition read_only_world :: world where
  "read_only_world =
     \<lparr>json_file = None, write_error = Some (ascii ''Permission denied''), out = [], ops = []\<rparr>"

definition locked_world :: world where
  "locked_world = two_tasks_world\<lparr>write_error := Some (ascii ''Permission denied'')\<rparr>"

definition scalar_entry_world :: world where
  "scalar_entry_world = \<lparr>json_file = Some (ascii ''[5]''), write_error = None, out = [], ops = []\<rparr>"

section \<open>Notions of the round-trip proof\<close>

text \<open>
  \<open>no_join c r\<close>: after the character \<open>c\<close> has been read, the text \<open>r\<close> does not continue
  a surrogate pair. \<open>delim r\<close>: the text \<open>r\<close> ends a number.
\<close>

definition no_join :: "nat \<Rightarrow> ustr \<Rightarrow> bool" where
  "no_join c rest =
     (\<not> is_high c \<or> take 2 rest \<noteq> [0x5C, 0x75]
      \<or> (\<exists>u. parse_hex4 (drop 2 rest) = Some u \<and> \<not> is_low u))"

definition delim :: "ustr \<Rightarrow> bool" where
  "delim rest = (case rest of [] \<Rightarrow> True | c # _ \<Rightarrow> c = 0x2C \<or> c = 0x0A)"

section \<open>Rules for running the model\<close>

lemmas parse_eval = json_loads_def ascii_def skip_ws_def is_ws_def parse_value.simps parse_members.simps
     parse_elems.simps scan_constant_def scan_number_def scan_int_def scan_frac_def scan_exp_def
     starts_with_def is_digit_def Let_def dict_of_pairs_def digits_value_def

lemmas dump_eval = json_dumps_def encode_string_def escape_chars_def escape_char_def
     newline_indent_def hex4_def hex_digit_def str_int_def ascii_def Let_def

lemmas prog_eval = add_task_def load_tasks_def save_tasks_def new_task_def py_print_def
     plain_runtime_def empty_world_def

lemmas parse_eval2 = parse_eval decode_u_def parse_hex4_def hex_val_def unescape_def

lemma replicate_4: "replicate 4 x = [x, x, x, x]"
  by (simp add: numeral_eq_Suc)

lemma replicate_8: "replicate 8 x = [x, x, x, x, x, x, x, x]"
  by (simp add: numeral_eq_Suc)

lemmas dump_eval2 = dump_eval replicate_4 replicate_8

lemmas int_eval = py_int_def py_int_ascii_def to_ascii_digit_def is_ascii_space_def is_digit_def
  digits_value_def Let_def ascii_def plain_runtime_def

section \<open>The parser consumes its input\<close>

text \<open>
  Every successful parse returns a rest that is shorter than its input, so the length
  comparisons in \<open>parse_elems\<close> and \<open>parse_members\<close> never fail.
\<close>

lemma scan_number_length: "scan_number s = Some (v, r) \<Longrightarrow> length r < length s"
proof -
  assume a: "scan_number s = Some (v, r)"
  then have i: "scan_int s \<noteq> []" by (auto simp: scan_number_def Let_def split: if_splits)
  then have s: "s \<noteq> []" by (auto simp: scan_int_def)
  from a i have "length r \<le> length s - length (scan_int s)"
    by (auto simp: scan_number_def Let_def split: if_splits)
  with i s show ?thesis by (cases "scan_int s"; cases s) auto
qed

lemma scan_constant_length: "scan_constant s = Some (v, r) \<Longrightarrow> length r < length s"
  by (cases s)
     (auto simp: scan_constant_def starts_with_def ascii_def
           split: if_splits option.splits dest: scan_number_length)

lemma parse_value_cons:
  "parse_value (c # r) =
     (if c = 0x22 then
        (case scanstring r of
           None \<Rightarrow> None
         | Some (t, r') \<Rightarrow> Some (JStr t, r'))
      else if c = 0x7B then
        (case skip_ws r of
           [] \<Rightarrow> None
         | c' # r' \<Rightarrow>
             if c' = 0x7D then Some (JObj [], r')
             else (case parse_members (c' # r') of
                     None \<Rightarrow> None
                   | Some (ps, r'') \<Rightarrow> Some (JObj (dict_of_pairs ps), r'')))
      else if c = 0x5B then
        (case skip_ws r of
           [] \<Rightarrow> None
         | c' # r' \<Rightarrow>
             if c' = 0x5D then Some (JArr [], r')
             else (case parse_elems (c' # r') of
                     None \<Rightarrow> None
                   | Some (vs, r'') \<Rightarrow> Some (JArr vs, r'')))
      else scan_constant (c # r))"
  by (subst parse_value.simps) simp

lemma parse_members_cons:
  "parse_members (q # r) =
     (if q = 0x22 then
        (case scanstring r of
           None \<Rightarrow> None
         | Some (k, r1) \<Rightarrow>
             (case skip_ws r1 of
                [] \<Rightarrow> None
              | c # r2 \<Rightarrow>
                  if c = 0x3A then
                    (case parse_value (skip_ws r2) of
                       None \<Rightarrow> None
                     | Some (v, r3) \<Rightarrow>
                         if length r3 \<le> length (q # r) then
                           (case skip_ws r3 of
                              [] \<Rightarrow> None
                            | c' # r4 \<Rightarrow>
                                if c' = 0x7D then Some ([(k, v)], r4)
                                else if c' = 0x2C then
                                  (case parse_members (skip_ws r4) of
                                     None \<Rightarrow> None
                                   | Some (ps, r5) \<Rightarrow> Some ((k, v) # ps, r5))
                                else None)
                         else None)
                  else None))
      else None)"
  by (subst parse_members.simps) simp

lemma parse_value_length:
  "parse_value s = Some (v, r) \<longrightarrow> length r < length s"
  "parse_elems s1 = Some (vs, r1) \<longrightarrow> length r1 < length s1"
  "parse_members s2 = Some (ps, r2) \<longrightarrow> length r2 < length s2"
proof (induction s and s1 and s2 arbitrary: v r and vs r1 and ps r2
        rule: parse_value_parse_elems_parse_members.induct)
  case (1 s)
  show ?case
  proof
    assume a: "parse_value s = Some (v, r)"
    then obtain c t where s: "s = c # t" by (cases s) (simp_all add: parse_value.simps)
    have sk: "length (skip_ws t) \<le> length t" by (rule length_skip_ws)
    consider (str) "c = 0x22" | (obj) "c \<noteq> 0x22" "c = 0x7B" | (arr) "c \<noteq> 0x22" "c \<noteq> 0x7B" "c = 0x5B"
      | (con) "c \<noteq> 0x22" "c \<noteq> 0x7B" "c \<noteq> 0x5B"
      by blast
    then show "length r < length s"
    proof cases
      case str
      with a s show ?thesis
        by (auto simp: parse_value_cons split: option.splits dest: scanstring_length)
    next
      case obj
      show ?thesis
      proof (cases "skip_ws t")
        case Nil
        with a s obj show ?thesis by (simp add: parse_value_cons)
      next
        case (Cons c' r')
        show ?thesis
        proof (cases "c' = 0x7D")
          case True
          with a s obj Cons sk show ?thesis by (auto simp: parse_value_cons)
        next
          case False
          with a s obj Cons obtain ps where p: "parse_members (c' # r') = Some (ps, r)"
            by (auto simp: parse_value_cons split: option.splits)
          have "length r < length (c' # r')"
            using "1.IH"(1) [OF s obj Cons False] p by simp
          with sk Cons s show ?thesis by simp
        qed
      qed
    next
      case arr
      show ?thesis
      proof (cases "skip_ws t")
        case Nil
        with a s arr show ?thesis by (simp add: parse_value_cons)
      next
        case (Cons c' r')
        show ?thesis
        proof (cases "c' = 0x5D")
          case True
          with a s arr Cons sk show ?thesis by (auto simp: parse_value_cons)
        next
          case False
          with a s arr Cons obtain vs where p: "parse_elems (c' # r') = Some (vs, r)"
            by (auto simp: parse_value_cons split: option.splits)
          have "length r < length (c' # r')"
            using "1.IH"(2) [OF s arr Cons False] p by simp
          with sk Cons s show ?thesis by simp
        qed
      qed
    next
      case con
      with a s have "scan_constant s = Some (v, r)"
        by (simp add: parse_value_cons)
      then show ?thesis by (rule scan_constant_length)
    qed
  qed
next
  case (2 s)
  show ?case
  proof
    assume a: "parse_elems s = Some (vs, r1)"
    then obtain v r where pv: "parse_value s = Some (v, r)"
      by (auto simp: parse_elems.simps [of s] split: option.splits)
    have lr: "length r < length s" using "2.IH"(1) [of v r] pv by simp
    have sk: "length (skip_ws r) \<le> length r" by (rule length_skip_ws)
    from a pv lr obtain c r' where sr: "skip_ws r = c # r'"
      by (cases "skip_ws r") (auto simp: parse_elems.simps [of s])
    show "length r1 < length s"
    proof (cases "c = 0x5D")
      case True
      with a pv lr sr have "r1 = r'" by (auto simp: parse_elems.simps [of s])
      with sr sk lr show ?thesis by simp
    next
      case False
      with a pv lr sr have c: "c = 0x2C"
        by (auto simp: parse_elems.simps [of s] split: if_splits)
      with a pv lr sr False obtain vs' where p: "parse_elems (skip_ws r') = Some (vs', r1)"
        by (auto simp: parse_elems.simps [of s] split: option.splits)
      have "length r1 < length (skip_ws r')"
        using "2.IH"(2) [OF pv refl less_imp_le [OF lr] sr False c] p by simp
      moreover have "length (skip_ws r') \<le> length r'" by (rule length_skip_ws)
      ultimately show ?thesis using sr sk lr by simp
    qed
  qed
next
  case (3 s)
  show ?case
  proof
    assume a: "parse_members s = Some (ps, r2)"
    then obtain q r where s: "s = q # r" by (cases s) (simp_all add: parse_members.simps)
    from a s have q: "q = 0x22"
      by (auto simp: parse_members_cons split: if_splits)
    from a s q obtain k ra where ss: "scanstring r = Some (k, ra)"
      by (auto simp: parse_members_cons split: option.splits)
    have l1: "length ra < length r" using ss by (rule scanstring_length)
    from a s q ss obtain c rb where sa: "skip_ws ra = c # rb"
      by (cases "skip_ws ra") (auto simp: parse_members_cons)
    from a s q ss sa have c: "c = 0x3A"
      by (auto simp: parse_members_cons split: if_splits)
    from a s q ss sa c obtain v rc where pv: "parse_value (skip_ws rb) = Some (v, rc)"
      by (auto simp: parse_members_cons split: option.splits)
    have l2: "length rc < length (skip_ws rb)"
      using "3.IH"(1) [OF s q ss refl sa c] pv by simp
    have l3: "length (skip_ws rb) \<le> length rb" "length (skip_ws ra) \<le> length ra"
      "length (skip_ws rc) \<le> length rc"
      by (rule length_skip_ws)+
    have g: "length rc \<le> length s" using l1 l2 l3 sa s by simp
    from a s q ss sa c pv g obtain c' rd where sc: "skip_ws rc = c' # rd"
      by (cases "skip_ws rc") (auto simp: parse_members_cons)
    show "length r2 < length s"
    proof (cases "c' = 0x7D")
      case True
      with a s q ss sa c pv g sc have "r2 = rd"
        by (auto simp: parse_members_cons)
      with sc l1 l2 l3 sa s show ?thesis by simp
    next
      case False
      with a s q ss sa c pv g sc have c': "c' = 0x2C"
        by (auto simp: parse_members_cons split: if_splits)
      with a s q ss sa c pv g sc False obtain ps' where
        p: "parse_members (skip_ws rd) = Some (ps', r2)"
        by (auto simp: parse_members_cons split: option.splits)
      have "length r2 < length (skip_ws rd)"
        using "3.IH"(2) [OF s q ss refl sa c pv refl g sc False c'] p by simp
      moreover have "length (skip_ws rd) \<le> length rd" by (rule length_skip_ws)
      ultimately show ?thesis using sc l1 l2 l3 sa s by simp
    qed
  qed
qed

section \<open>Loading inverts saving\<close>

subsection \<open>Strings\<close>

lemma hex_val_hex_digit: "d < 16 \<Longrightarrow> hex_val (hex_digit d) = Some d"
  by (auto simp: hex_val_def hex_digit_def)

lemma hex4_value:
  assumes "(n::nat) < 65536"
  shows "((n div 4096 mod 16 * 16 + n div 256 mod 16) * 16 + n div 16 mod 16) * 16 + n mod 16 = n"
proof -
  define a where "a = n div 16"
  define b where "b = a div 16"
  define c where "c = b div 16"
  have b: "n div 256 = b"
    using div_mult2_eq [of n 16 16] by (simp add: a_def b_def)
  have c: "n div 4096 = c"
    using div_mult2_eq [of n 256 16] by (simp add: b [unfolded b_def a_def] c_def b_def a_def)
  have "c < 16" using assms c by simp
  then have c16: "c mod 16 = c" by simp
  have n: "n = a * 16 + n mod 16" by (simp add: a_def)
  have a: "a = b * 16 + a mod 16" by (simp add: b_def)
  have b': "b = c * 16 + b mod 16" by (simp add: c_def)
  have "((c * 16 + b mod 16) * 16 + a mod 16) * 16 + n mod 16 = n"
    using n a b' by simp
  then show ?thesis
    by (simp add: b c c16 a_def)
qed

lemma parse_hex4_hex4: "n < 65536 \<Longrightarrow> parse_hex4 (hex4 n @ r) = Some n"
  using hex4_value [of n] by (simp add: parse_hex4_def hex4_def hex_val_hex_digit)

lemma escape_char_shape:
  "c < 0x10000 \<Longrightarrow>
   escape_char c = [0x5C, 0x75] @ hex4 c
   \<or> (\<exists>a. escape_char c = [a] \<and> a \<noteq> 0x5C)
   \<or> (\<exists>b. escape_char c = [0x5C, b] \<and> b \<noteq> 0x75)"
  by (simp add: escape_char_def)

lemma decode_u_bmp:
  assumes "c < 0x10000" and "no_join c rest"
  shows "decode_u (hex4 c @ rest) = Some (c, 4)"
proof -
  have l: "length (hex4 c) = 4" by (simp add: hex4_def)
  have p: "parse_hex4 (hex4 c @ rest) = Some c" using assms(1) by (simp add: parse_hex4_hex4)
  have d4: "drop 4 (hex4 c @ rest) = rest" "drop 6 (hex4 c @ rest) = drop 2 rest"
    using l by simp_all
  show ?thesis
    using assms(2) unfolding decode_u_def p d4 no_join_def is_high_def is_low_def
    by (auto split: option.splits)
qed

lemma decode_u_pair:
  assumes "0x10000 \<le> c" and "c \<le> 0x10FFFF"
  shows "decode_u (hex4 (0xD800 + ((c - 0x10000) div 1024) mod 1024) @ [0x5C, 0x75]
                   @ hex4 (0xDC00 + (c - 0x10000) mod 1024) @ rest) = Some (c, 10)"
proof -
  define n where "n = c - 0x10000"
  define s1 where "s1 = 0xD800 + (n div 1024) mod 1024"
  define s2 where "s2 = 0xDC00 + n mod 1024"
  have n: "n < 0x100000" "c = 0x10000 + n" using assms by (simp_all add: n_def)
  have s1: "0xD800 \<le> s1" "s1 \<le> 0xDBFF" "s1 < 65536" by (simp_all add: s1_def)
  have s2: "0xDC00 \<le> s2" "s2 \<le> 0xDFFF" "s2 < 65536" by (simp_all add: s2_def)
  have l: "length (hex4 s1) = 4" by (simp add: hex4_def)
  have p1: "parse_hex4 (hex4 s1 @ [0x5C, 0x75] @ hex4 s2 @ rest) = Some s1"
    using s1(3) by (rule parse_hex4_hex4)
  have d4: "take 2 (drop 4 (hex4 s1 @ [0x5C, 0x75] @ hex4 s2 @ rest)) = [0x5C, 0x75]"
    using l by simp
  have d6: "drop 6 (hex4 s1 @ [0x5C, 0x75] @ hex4 s2 @ rest) = hex4 s2 @ rest"
    using l by simp
  have p2: "parse_hex4 (hex4 s2 @ rest) = Some s2"
    using s2(3) by (rule parse_hex4_hex4)
  have v: "0x10000 + ((s1 - 0xD800) * 1024 + (s2 - 0xDC00)) = c"
    using n by (simp add: s1_def s2_def)
  have "decode_u (hex4 s1 @ [0x5C, 0x75] @ hex4 s2 @ rest) = Some (c, 10)"
    unfolding decode_u_def p1 d4 d6 p2 using s1 s2 v by simp
  then show ?thesis by (simp add: s1_def s2_def n_def)
qed

lemma scanstring_escape_char:
  assumes "c \<le> 0x10FFFF" and "no_join c rest"
  shows "scanstring (escape_char c @ rest)
           = (case scanstring rest of None \<Rightarrow> None | Some (t, r) \<Rightarrow> Some (c # t, r))"
proof -
  consider (short) "c = 0x22 \<or> c = 0x5C \<or> c = 0x0A \<or> c = 0x0D \<or> c = 0x09 \<or> c = 0x08 \<or> c = 0x0C"
    | (plain) "0x20 \<le> c" "c \<le> 0x7E" "c \<noteq> 0x22" "c \<noteq> 0x5C"
    | (bmp) "c < 0x20 \<or> 0x7E < c" "c < 0x10000" "c \<noteq> 0x0A" "c \<noteq> 0x0D" "c \<noteq> 0x09" "c \<noteq> 0x08" "c \<noteq> 0x0C"
    | (astral) "0x10000 \<le> c"
  proof (cases "c = 0x22 \<or> c = 0x5C \<or> c = 0x0A \<or> c = 0x0D \<or> c = 0x09 \<or> c = 0x08 \<or> c = 0x0C")
    case True
    then show ?thesis by (rule that(1))
  next
    case nshort: False
    show ?thesis
    proof (cases "0x20 \<le> c \<and> c \<le> 0x7E")
      case True
      then show ?thesis using nshort that(2) by simp
    next
      case nplain: False
      show ?thesis
      proof (cases "c < 0x10000")
        case True
        have "c < 0x20 \<or> 0x7E < c" using nplain by linarith
        then show ?thesis using True nshort that(3) by simp
      next
        case False
        then show ?thesis using that(4) by simp
      qed
    qed
  qed
  then show ?thesis
  proof cases
    case short
    then show ?thesis
      by (auto simp: escape_char_def unescape_def)
  next
    case plain
    then show ?thesis
      by (simp add: escape_char_def)
  next
    case bmp
    have d: "decode_u (hex4 c @ rest) = Some (c, 4)"
      using bmp(2) assms(2) by (rule decode_u_bmp)
    have l: "length (hex4 c) = 4" by (simp add: hex4_def)
    have e: "escape_char c = [0x5C, 0x75] @ hex4 c"
      using bmp by (auto simp: escape_char_def)
    show ?thesis unfolding e using d l by simp
  next
    case astral
    let ?s1 = "0xD800 + ((c - 0x10000) div 1024) mod 1024"
    let ?s2 = "0xDC00 + (c - 0x10000) mod 1024"
    have d: "decode_u (hex4 ?s1 @ [0x5C, 0x75] @ hex4 ?s2 @ rest) = Some (c, 10)"
      using astral assms(1) by (rule decode_u_pair)
    have l: "length (hex4 ?s1) = 4" "length (hex4 ?s2) = 4" by (simp_all add: hex4_def)
    have e: "escape_char c = [0x5C, 0x75] @ hex4 ?s1 @ [0x5C, 0x75] @ hex4 ?s2"
      using astral by (simp add: escape_char_def Let_def)
    have dr: "drop 10 (hex4 ?s1 @ [0x5C, 0x75] @ hex4 ?s2 @ rest) = rest"
      using l by simp
    show ?thesis unfolding e using d dr by simp
  qed
qed

lemma no_join_quote: "no_join c (0x22 # r)"
  by (simp add: no_join_def)

lemma no_join_escape:
  assumes "c' \<le> 0x10FFFF" and "\<not> (is_high c \<and> is_low c')"
  shows "no_join c (escape_char c' @ rest)"
proof (cases "is_high c")
  case False
  then show ?thesis by (simp add: no_join_def)
next
  case True
  with assms(2) have nl: "\<not> is_low c'" by simp
  consider (other) "take 2 (escape_char c' @ rest) \<noteq> [0x5C, 0x75]"
    | (bmp) "c' < 0x10000" "escape_char c' = [0x5C, 0x75] @ hex4 c'"
    | (astral) "0x10000 \<le> c'"
  proof (cases "c' < 0x10000")
    case True
    from escape_char_shape [OF True] show ?thesis
    proof (elim disjE exE conjE)
      assume "escape_char c' = [0x5C, 0x75] @ hex4 c'"
      with True show ?thesis by (rule that(2))
    next
      fix a assume "escape_char c' = [a]" "a \<noteq> 0x5C"
      then have "take 2 (escape_char c' @ rest) \<noteq> [0x5C, 0x75]" by (cases rest) simp_all
      then show ?thesis by (rule that(1))
    next
      fix b assume "escape_char c' = [0x5C, b]" "b \<noteq> 0x75"
      then have "take 2 (escape_char c' @ rest) \<noteq> [0x5C, 0x75]" by simp
      then show ?thesis by (rule that(1))
    qed
  next
    case False
    then show ?thesis using that(3) by simp
  qed
  then show ?thesis
  proof cases
    case other
    then show ?thesis by (simp add: no_join_def)
  next
    case bmp
    have "parse_hex4 (drop 2 (escape_char c' @ rest)) = Some c'"
      unfolding bmp(2) using bmp(1) by (simp add: parse_hex4_hex4)
    with nl show ?thesis unfolding no_join_def by blast
  next
    case astral
    let ?s1 = "0xD800 + ((c' - 0x10000) div 1024) mod 1024"
    let ?s2 = "0xDC00 + (c' - 0x10000) mod 1024"
    have e: "escape_char c' = [0x5C, 0x75] @ hex4 ?s1 @ [0x5C, 0x75] @ hex4 ?s2"
      using astral by (simp add: escape_char_def Let_def)
    have "?s1 < 65536" by simp
    then have "parse_hex4 (drop 2 (escape_char c' @ rest)) = Some ?s1"
      unfolding e by (simp add: parse_hex4_hex4)
    moreover have "\<not> is_low ?s1" by (simp add: is_low_def)
    ultimately show ?thesis unfolding no_join_def by blast
  qed
qed

lemma scanstring_escape_chars:
  "text_ok s \<Longrightarrow> scanstring (escape_chars s @ 0x22 # r) = Some (s, r)"
proof (induction s)
  case Nil
  then show ?case by (simp add: escape_chars_def)
next
  case (Cons c s)
  have c: "c \<le> 0x10FFFF" using Cons.prems by (simp add: text_ok_def)
  have ok: "text_ok s" using Cons.prems by (cases s) (simp_all add: text_ok_def)
  have nj: "no_join c (escape_chars s @ 0x22 # r)"
  proof (cases s)
    case Nil
    then show ?thesis by (simp add: escape_chars_def no_join_quote)
  next
    case (Cons c' s')
    have "c' \<le> 0x10FFFF" "\<not> (is_high c \<and> is_low c')"
      using Cons.prems Cons by (simp_all add: text_ok_def)
    then have "no_join c (escape_char c' @ (escape_chars s' @ 0x22 # r))"
      by (rule no_join_escape)
    then show ?thesis by (simp add: Cons escape_chars_def)
  qed
  have "scanstring (escape_char c @ (escape_chars s @ 0x22 # r))
          = (case scanstring (escape_chars s @ 0x22 # r) of None \<Rightarrow> None
             | Some (t, r') \<Rightarrow> Some (c # t, r'))"
    using c nj by (rule scanstring_escape_char)
  then show ?case using Cons.IH [OF ok] by (simp add: escape_chars_def)
qed

subsection \<open>Integers, white space and the first character of a value\<close>

lemma str_nat_small: "n < 10 \<Longrightarrow> str_nat n = [48 + n]"
  by (subst str_nat.simps) simp

lemma str_nat_big: "\<not> n < 10 \<Longrightarrow> str_nat n = str_nat (n div 10) @ [48 + n mod 10]"
  by (subst str_nat.simps) simp

lemma str_nat_digits: "list_all is_digit (str_nat n)"
proof (induction n rule: str_nat.induct)
  case (1 n)
  show ?case
  proof (cases "n < 10")
    case True
    then show ?thesis by (simp add: str_nat_small is_digit_def)
  next
    case False
    have "n mod 10 < 10" by simp
    then have "is_digit (48 + n mod 10)" unfolding is_digit_def by linarith
    with False 1 show ?thesis by (simp add: str_nat_big)
  qed
qed

lemma str_nat_nonempty: "str_nat n \<noteq> []"
  by (cases "n < 10") (simp_all add: str_nat_small str_nat_big)

lemma digits_value_snoc: "digits_value (ds @ [d]) = 10 * digits_value ds + (d - 0x30)"
  by (simp add: digits_value_def)

lemma digits_value_str_nat: "digits_value (str_nat n) = n"
proof (induction n rule: str_nat.induct)
  case (1 n)
  show ?case
  proof (cases "n < 10")
    case True
    then show ?thesis by (simp add: str_nat_small digits_value_def)
  next
    case False
    with 1 have "digits_value (str_nat (n div 10)) = n div 10" by simp
    with False show ?thesis by (simp add: str_nat_big digits_value_snoc)
  qed
qed

lemma str_nat_hd: "0 < n \<Longrightarrow> hd (str_nat n) \<noteq> 0x30"
proof (induction n rule: str_nat.induct)
  case (1 n)
  show ?case
  proof (cases "n < 10")
    case True
    with 1(2) show ?thesis by (simp add: str_nat_small)
  next
    case False
    then have "0 < n div 10" by simp
    with 1(1) False have "hd (str_nat (n div 10)) \<noteq> 0x30" by simp
    with False show ?thesis by (simp add: str_nat_big str_nat_nonempty)
  qed
qed

lemma takeWhile_digits:
  assumes "list_all is_digit ds" and "delim rest"
  shows "takeWhile is_digit (ds @ rest) = ds"
proof -
  have "takeWhile is_digit rest = []"
    using assms(2) by (cases rest) (auto simp: delim_def is_digit_def)
  moreover have "\<forall>x\<in>set ds. is_digit x" using assms(1) by (simp add: list_all_iff)
  ultimately show ?thesis by (simp add: takeWhile_append2)
qed

lemma scan_int_str_nat:
  assumes "delim rest"
  shows "scan_int (str_nat n @ rest) = str_nat n"
proof -
  obtain d ds where s: "str_nat n = d # ds"
    using str_nat_nonempty [of n] by (cases "str_nat n") auto
  have dig: "is_digit d" "list_all is_digit (d # ds)"
    using str_nat_digits [of n] by (simp_all add: s)
  then have nm: "d \<noteq> 0x2D" by (auto simp: is_digit_def)
  show ?thesis
  proof (cases "n = 0")
    case True
    then show ?thesis by (simp add: str_nat_small scan_int_def)
  next
    case False
    then have "hd (str_nat n) \<noteq> 0x30" by (simp add: str_nat_hd)
    then have d0: "d \<noteq> 0x30" by (simp add: s)
    have "takeWhile is_digit ((d # ds) @ rest) = d # ds"
      using dig(2) assms by (rule takeWhile_digits)
    then show ?thesis using nm d0 dig(1) by (simp add: s scan_int_def)
  qed
qed

lemma scan_int_str_nat_neg:
  assumes "delim rest" and "0 < n"
  shows "scan_int (0x2D # str_nat n @ rest) = 0x2D # str_nat n"
proof -
  obtain d ds where s: "str_nat n = d # ds"
    using str_nat_nonempty [of n] by (cases "str_nat n") auto
  have dig: "is_digit d" "list_all is_digit (d # ds)"
    using str_nat_digits [of n] by (simp_all add: s)
  have "hd (str_nat n) \<noteq> 0x30" using assms(2) by (simp add: str_nat_hd)
  then have d0: "d \<noteq> 0x30" by (simp add: s)
  have "takeWhile is_digit ((d # ds) @ rest) = d # ds"
    using dig(2) assms(1) by (rule takeWhile_digits)
  then show ?thesis using d0 dig(1) by (simp add: s scan_int_def)
qed

lemma scan_int_str_int:
  assumes "delim rest"
  shows "scan_int (str_int i @ rest) = str_int i"
proof (cases "i < 0")
  case True
  then have "0 < nat (- i)" by simp
  with assms show ?thesis using True by (simp add: str_int_def scan_int_str_nat_neg)
next
  case False
  with assms show ?thesis by (simp add: str_int_def scan_int_str_nat)
qed

lemma scan_frac_delim: "delim rest \<Longrightarrow> scan_frac rest = []"
  by (cases rest) (auto simp: delim_def scan_frac_def)

lemma scan_exp_delim: "delim rest \<Longrightarrow> scan_exp rest = []"
  by (cases rest) (auto simp: delim_def scan_exp_def)

lemma str_int_value:
  "(if take 1 (str_int i) = [0x2D] then - int (digits_value (drop 1 (str_int i)))
    else int (digits_value (str_int i))) = i"
proof (cases "i < 0")
  case True
  then show ?thesis by (simp add: str_int_def digits_value_str_nat)
next
  case False
  obtain d ds where s: "str_nat (nat i) = d # ds"
    using str_nat_nonempty [of "nat i"] by (cases "str_nat (nat i)") auto
  have "is_digit d" using str_nat_digits [of "nat i"] by (simp add: s)
  then have "d \<noteq> 0x2D" by (auto simp: is_digit_def)
  then have "take 1 (str_int i) \<noteq> [0x2D]" using False by (simp add: str_int_def s)
  then show ?thesis using False digits_value_str_nat [of "nat i"] by (simp add: str_int_def)
qed

lemma str_int_nonempty: "str_int i \<noteq> []"
  by (simp add: str_int_def str_nat_nonempty)

lemma scan_number_str_int:
  assumes "delim rest"
  shows "scan_number (str_int i @ rest) = Some (JInt i, rest)"
proof -
  have a: "scan_int (str_int i @ rest) = str_int i" using assms by (rule scan_int_str_int)
  show ?thesis
    unfolding scan_number_def a Let_def
    using str_int_value [of i] by (simp add: str_int_nonempty scan_frac_delim scan_exp_delim assms)
qed

lemma str_int_first: "\<exists>c t. str_int i = c # t \<and> (c = 0x2D \<or> is_digit c)"
proof -
  obtain d ds where s: "str_nat (nat i) = d # ds"
    using str_nat_nonempty [of "nat i"] by (cases "str_nat (nat i)") auto
  have "is_digit d" using str_nat_digits [of "nat i"] by (simp add: s)
  then show ?thesis by (cases "i < 0") (simp_all add: str_int_def s)
qed

lemma scan_constant_str_int:
  assumes "delim rest"
  shows "scan_constant (str_int i @ rest) = Some (JInt i, rest)"
proof -
  obtain c t where s: "str_int i = c # t" and c: "c = 0x2D \<or> is_digit c"
    using str_int_first by blast
  have "\<not> starts_with (ascii ''null'') (str_int i @ rest)"
       "\<not> starts_with (ascii ''true'') (str_int i @ rest)"
       "\<not> starts_with (ascii ''false'') (str_int i @ rest)"
    using c by (auto simp: starts_with_def ascii_def s is_digit_def)
  then show ?thesis
    using scan_number_str_int [OF assms, of i] by (simp add: scan_constant_def)
qed

lemma parse_value_str_int:
  assumes "delim rest"
  shows "parse_value (str_int i @ rest) = Some (JInt i, rest)"
proof -
  obtain c t where s: "str_int i = c # t" and c: "c = 0x2D \<or> is_digit c"
    using str_int_first by blast
  have "c \<noteq> 0x22" "c \<noteq> 0x7B" "c \<noteq> 0x5B" using c by (auto simp: is_digit_def)
  then have "parse_value ((c # t) @ rest) = scan_constant ((c # t) @ rest)"
    by (subst parse_value.simps) simp
  then show ?thesis using scan_constant_str_int [OF assms, of i] by (simp add: s)
qed

lemma skip_ws_indent: "skip_ws (newline_indent l @ x) = skip_ws x"
proof -
  have "\<forall>c\<in>set (newline_indent l). is_ws c"
    by (auto simp: newline_indent_def is_ws_def)
  then show ?thesis unfolding skip_ws_def by (simp add: dropWhile_append2)
qed

lemma skip_ws_nonws: "\<not> is_ws c \<Longrightarrow> skip_ws (c # x) = c # x"
  by (simp add: skip_ws_def)

lemma skip_ws_space: "skip_ws (0x20 # x) = skip_ws x"
  by (simp add: skip_ws_def is_ws_def)

lemma skip_ws_Nil: "skip_ws [] = []"
  by (simp add: skip_ws_def)

lemma parse_value_string:
  "parse_value (0x22 # r) = (case scanstring r of None \<Rightarrow> None | Some (t, r') \<Rightarrow> Some (JStr t, r'))"
  by (subst parse_value.simps) simp

lemma parse_value_array:
  assumes "\<not> is_ws c" and "c \<noteq> 0x5D"
  shows "parse_value (0x5B # newline_indent l @ c # t)
           = (case parse_elems (c # t) of None \<Rightarrow> None | Some (vs, r) \<Rightarrow> Some (JArr vs, r))"
  using assms by (subst parse_value.simps) (simp add: skip_ws_indent skip_ws_nonws)

lemma parse_value_object:
  assumes "\<not> is_ws c" and "c \<noteq> 0x7D"
  shows "parse_value (0x7B # newline_indent l @ c # t)
           = (case parse_members (c # t) of None \<Rightarrow> None
              | Some (ps, r) \<Rightarrow> Some (JObj (dict_of_pairs ps), r))"
  using assms by (subst parse_value.simps) (simp add: skip_ws_indent skip_ws_nonws)

lemma parse_elems_step:
  assumes "parse_value s = Some (v, r)" and "length r \<le> length s"
  shows "parse_elems s =
           (case skip_ws r of
              [] \<Rightarrow> None
            | c # r' \<Rightarrow>
                if c = 0x5D then Some ([v], r')
                else if c = 0x2C then
                  (case parse_elems (skip_ws r') of
                     None \<Rightarrow> None
                   | Some (vs, r'') \<Rightarrow> Some (v # vs, r''))
                else None)"
  using assms by (subst parse_elems.simps) simp

lemma parse_members_step:
  assumes "scanstring r = Some (k, 0x3A # r2)" and "parse_value (skip_ws r2) = Some (v, r3)"
    and "length r3 \<le> Suc (length r)"
  shows "parse_members (0x22 # r) =
           (case skip_ws r3 of
              [] \<Rightarrow> None
            | c' # r4 \<Rightarrow>
                if c' = 0x7D then Some ([(k, v)], r4)
                else if c' = 0x2C then
                  (case parse_members (skip_ws r4) of
                     None \<Rightarrow> None
                   | Some (ps, r5) \<Rightarrow> Some ((k, v) # ps, r5))
                else None)"
  using assms by (subst parse_members.simps) (simp add: skip_ws_nonws is_ws_def)

lemma encode_string_first: "encode_string s = 0x22 # escape_chars s @ [0x22]"
  by (simp add: encode_string_def)

lemma dumps_first:
  "json_ok v \<Longrightarrow> \<exists>c t. dumps rt l v = c # t \<and> \<not> is_ws c \<and> c \<noteq> 0x5D \<and> c \<noteq> 0x7D \<and> c \<noteq> 0xFEFF"
proof (cases v)
  case (JInt i)
  obtain c t where "str_int i = c # t" "c = 0x2D \<or> is_digit c"
    using str_int_first by blast
  then show ?thesis using JInt by (auto simp: is_ws_def is_digit_def)
qed (auto simp: ascii_def is_ws_def encode_string_first)

lemma dumps_items_first:
  "vs \<noteq> [] \<Longrightarrow> json_ok_list vs \<Longrightarrow>
   \<exists>c t. dumps_items rt l vs = c # t \<and> \<not> is_ws c \<and> c \<noteq> 0x5D"
proof (cases vs)
  case Nil
  assume "vs \<noteq> []" with Nil show ?thesis by simp
next
  case (Cons v vs')
  assume "json_ok_list vs"
  then have "json_ok v" using Cons by simp
  from dumps_first [OF this, of rt l] obtain c t where
    "dumps rt l v = c # t" "\<not> is_ws c" "c \<noteq> 0x5D" by blast
  then show ?thesis using Cons by simp
qed

lemma dumps_members_first:
  "kvs \<noteq> [] \<Longrightarrow> \<exists>t. dumps_members rt l kvs = 0x22 # t"
  by (cases kvs) (auto simp: encode_string_first)

subsection \<open>Values\<close>

lemma delim_indent: "delim (newline_indent l @ x)"
  by (simp add: delim_def newline_indent_def)

lemma delim_comma: "delim (0x2C # x)"
  by (simp add: delim_def)

lemma dict_set_fresh: "k \<notin> fst ` set d \<Longrightarrow> dict_set k v d = d @ [(k, v)]"
  by (induction d) auto

lemma foldl_dict_set:
  "distinct (map fst (d @ ps)) \<Longrightarrow> foldl (\<lambda>d (k, v). dict_set k v d) d ps = d @ ps"
proof (induction ps arbitrary: d)
  case Nil
  then show ?case by simp
next
  case (Cons p ps)
  obtain k v where p: "p = (k, v)" by (cases p)
  have "k \<notin> fst ` set d" using Cons.prems by (auto simp: p)
  then have s: "dict_set k v d = d @ [(k, v)]" by (rule dict_set_fresh)
  have "distinct (map fst ((d @ [(k, v)]) @ ps))" using Cons.prems by (simp add: p)
  from Cons.IH [OF this] show ?case by (simp add: p s)
qed

lemma dict_of_pairs_distinct: "distinct (map fst ps) \<Longrightarrow> dict_of_pairs ps = ps"
  using foldl_dict_set [of "[]" ps] by (simp add: dict_of_pairs_def)

lemma parse_dumps:
  "json_ok v \<longrightarrow> (\<forall>rest. delim rest \<longrightarrow> parse_value (dumps rt l v @ rest) = Some (v, rest))"
  "vs \<noteq> [] \<longrightarrow> json_ok_list vs \<longrightarrow>
     (\<forall>l' rest. parse_elems (dumps_items rt l vs @ newline_indent l' @ 0x5D # rest) = Some (vs, rest))"
  "kvs \<noteq> [] \<longrightarrow> json_ok_members kvs \<longrightarrow>
     (\<forall>l' rest. parse_members (dumps_members rt l kvs @ newline_indent l' @ 0x7D # rest)
                  = Some (kvs, rest))"
proof (induction rt l v and rt l vs and rt l kvs rule: dumps_dumps_items_dumps_members.induct)
  case (1 rt level)
  have "parse_value (0x6E # 0x75 # 0x6C # 0x6C # rest) = Some (JNull, rest)" for rest
    by (subst parse_value.simps) (simp add: scan_constant_def starts_with_def ascii_def)
  then show ?case by (simp add: ascii_def)
next
  case (2 rt level b)
  have t: "parse_value (0x74 # 0x72 # 0x75 # 0x65 # rest) = Some (JBool True, rest)" for rest
    by (subst parse_value.simps) (simp add: scan_constant_def starts_with_def ascii_def)
  have f: "parse_value (0x66 # 0x61 # 0x6C # 0x73 # 0x65 # rest) = Some (JBool False, rest)" for rest
    by (subst parse_value.simps) (simp add: scan_constant_def starts_with_def ascii_def)
  show ?case by (cases b) (simp_all add: ascii_def t f)
next
  case (3 rt level i)
  then show ?case by (simp add: parse_value_str_int)
next
  case (4 rt level lit)
  then show ?case by simp
next
  case (5 rt level s)
  show ?case
    by (simp add: encode_string_def parse_value_string scanstring_escape_chars)
next
  case (6 rt level vs)
  show ?case
  proof (intro impI allI)
    fix rest
    assume ok: "json_ok (JArr vs)" and "delim rest"
    show "parse_value (dumps rt level (JArr vs) @ rest) = Some (JArr vs, rest)"
    proof (cases "vs = []")
      case True
      have "parse_value (0x5B # 0x5D # rest) = Some (JArr [], rest)"
        by (subst parse_value.simps) (simp add: skip_ws_nonws is_ws_def)
      then show ?thesis using True by (simp add: ascii_def)
    next
      case False
      have okl: "json_ok_list vs" using ok by simp
      obtain c t where f: "dumps_items rt (level + 1) vs = c # t" "\<not> is_ws c" "c \<noteq> 0x5D"
        using dumps_items_first [OF False okl] by blast
      have ih: "parse_elems (dumps_items rt (level + 1) vs @ newline_indent level @ 0x5D # rest)
                  = Some (vs, rest)"
        using 6 False okl by simp
      have "parse_value (0x5B # newline_indent (level + 1)
                          @ c # (t @ newline_indent level @ 0x5D # rest))
              = (case parse_elems (c # (t @ newline_indent level @ 0x5D # rest)) of
                   None \<Rightarrow> None | Some (vs, r) \<Rightarrow> Some (JArr vs, r))"
        using f(2,3) by (rule parse_value_array)
      then show ?thesis using False ih f(1) by (simp add: ascii_def)
    qed
  qed
next
  case (7 rt level kvs)
  show ?case
  proof (intro impI allI)
    fix rest
    assume ok: "json_ok (JObj kvs)" and "delim rest"
    show "parse_value (dumps rt level (JObj kvs) @ rest) = Some (JObj kvs, rest)"
    proof (cases "kvs = []")
      case True
      have "parse_value (0x7B # 0x7D # rest) = Some (JObj [], rest)"
        by (subst parse_value.simps) (simp add: skip_ws_nonws is_ws_def)
      then show ?thesis using True by (simp add: ascii_def)
    next
      case False
      have okm: "json_ok_members kvs" and dist: "distinct (map fst kvs)" using ok by simp_all
      obtain t where f: "dumps_members rt (level + 1) kvs = 0x22 # t"
        using dumps_members_first [OF False] by blast
      have ih: "parse_members (dumps_members rt (level + 1) kvs @ newline_indent level @ 0x7D # rest)
                  = Some (kvs, rest)"
        using 7 False okm by simp
      have "parse_value (0x7B # newline_indent (level + 1)
                          @ 0x22 # (t @ newline_indent level @ 0x7D # rest))
              = (case parse_members (0x22 # (t @ newline_indent level @ 0x7D # rest)) of
                   None \<Rightarrow> None | Some (ps, r) \<Rightarrow> Some (JObj (dict_of_pairs ps), r))"
        by (rule parse_value_object) (simp_all add: is_ws_def)
      then show ?thesis
        using False ih f by (simp add: ascii_def dict_of_pairs_distinct [OF dist])
    qed
  qed
next
  case (8 rt level)
  then show ?case by simp
next
  case (9 rt level v vs)
  show ?case
  proof (intro impI allI)
    fix l' rest
    assume ok: "json_ok_list (v # vs)"
    have okv: "json_ok v" and okl: "json_ok_list vs" using ok by simp_all
    define tail where
      "tail = (if vs = [] then [] else 0x2C # newline_indent level @ dumps_items rt level vs)
              @ newline_indent l' @ 0x5D # rest"
    have d: "delim tail"
      by (simp add: tail_def delim_indent delim_comma)
    have pv: "parse_value (dumps rt level v @ tail) = Some (v, tail)"
      using 9(1) okv d by simp
    have step: "parse_elems (dumps rt level v @ tail) =
           (case skip_ws tail of
              [] \<Rightarrow> None
            | c # r' \<Rightarrow>
                if c = 0x5D then Some ([v], r')
                else if c = 0x2C then
                  (case parse_elems (skip_ws r') of
                     None \<Rightarrow> None
                   | Some (vs, r'') \<Rightarrow> Some (v # vs, r''))
                else None)"
      using pv by (rule parse_elems_step) simp
    have "parse_elems (dumps rt level v @ tail) = Some (v # vs, rest)"
    proof (cases "vs = []")
      case True
      then have "skip_ws tail = 0x5D # rest"
        by (simp add: tail_def skip_ws_indent skip_ws_nonws is_ws_def)
      then show ?thesis using True step by simp
    next
      case False
      obtain c t where f: "dumps_items rt level vs = c # t" "\<not> is_ws c"
        using dumps_items_first [OF False okl] by blast
      have ih: "parse_elems (dumps_items rt level vs @ newline_indent l' @ 0x5D # rest) = Some (vs, rest)"
        using 9(2) False okl by simp
      have t: "tail = 0x2C # newline_indent level @ dumps_items rt level vs
                      @ newline_indent l' @ 0x5D # rest"
        using False by (simp add: tail_def)
      have s1: "skip_ws tail = tail"
        unfolding t by (simp add: skip_ws_nonws is_ws_def)
      have s2: "skip_ws (newline_indent level @ dumps_items rt level vs @ newline_indent l' @ 0x5D # rest)
                  = dumps_items rt level vs @ newline_indent l' @ 0x5D # rest"
        using f by (simp add: skip_ws_indent skip_ws_nonws)
      show ?thesis
        unfolding step s1 unfolding t using ih s2 by simp
    qed
    then show "parse_elems (dumps_items rt level (v # vs) @ newline_indent l' @ 0x5D # rest)
                 = Some (v # vs, rest)"
      by (auto simp: tail_def ascii_def split: if_splits)
  qed
next
  case (10 rt level)
  then show ?case by simp
next
  case (11 rt level k v kvs)
  show ?case
  proof (intro impI allI)
    fix l' rest
    assume ok: "json_ok_members ((k, v) # kvs)"
    have okk: "text_ok k" and okv: "json_ok v" and okm: "json_ok_members kvs" using ok by simp_all
    define tail where
      "tail = (if kvs = [] then [] else 0x2C # newline_indent level @ dumps_members rt level kvs)
              @ newline_indent l' @ 0x7D # rest"
    have d: "delim tail"
      by (simp add: tail_def delim_indent delim_comma)
    have pv: "parse_value (skip_ws (0x20 # dumps rt level v @ tail)) = Some (v, tail)"
    proof -
      obtain c t where f: "dumps rt level v = c # t" "\<not> is_ws c"
        using dumps_first [OF okv] by blast
      have "skip_ws (0x20 # dumps rt level v @ tail) = dumps rt level v @ tail"
        using f by (simp add: skip_ws_space skip_ws_nonws)
      then show ?thesis using 11(1) okv d by simp
    qed
    have ss: "scanstring (escape_chars k @ 0x22 # 0x3A # 0x20 # dumps rt level v @ tail)
                = Some (k, 0x3A # 0x20 # dumps rt level v @ tail)"
      using okk by (rule scanstring_escape_chars)
    have step: "parse_members (0x22 # escape_chars k @ 0x22 # 0x3A # 0x20 # dumps rt level v @ tail) =
           (case skip_ws tail of
              [] \<Rightarrow> None
            | c' # r4 \<Rightarrow>
                if c' = 0x7D then Some ([(k, v)], r4)
                else if c' = 0x2C then
                  (case parse_members (skip_ws r4) of
                     None \<Rightarrow> None
                   | Some (ps, r5) \<Rightarrow> Some ((k, v) # ps, r5))
                else None)"
      using ss pv by (rule parse_members_step) simp
    have "parse_members (0x22 # escape_chars k @ 0x22 # 0x3A # 0x20 # dumps rt level v @ tail)
            = Some ((k, v) # kvs, rest)"
    proof (cases "kvs = []")
      case True
      then have "skip_ws tail = 0x7D # rest"
        by (simp add: tail_def skip_ws_indent skip_ws_nonws is_ws_def)
      then show ?thesis using True step by simp
    next
      case False
      obtain t where f: "dumps_members rt level kvs = 0x22 # t"
        using dumps_members_first [OF False] by blast
      have ih: "parse_members (dumps_members rt level kvs @ newline_indent l' @ 0x7D # rest)
                  = Some (kvs, rest)"
        using 11(2) False okm by simp
      have t: "tail = 0x2C # newline_indent level @ dumps_members rt level kvs
                      @ newline_indent l' @ 0x7D # rest"
        using False by (simp add: tail_def)
      have s1: "skip_ws tail = tail"
        unfolding t by (simp add: skip_ws_nonws is_ws_def)
      have s2: "skip_ws (newline_indent level @ dumps_members rt level kvs @ newline_indent l' @ 0x7D # rest)
                  = dumps_members rt level kvs @ newline_indent l' @ 0x7D # rest"
        using f by (simp add: skip_ws_indent skip_ws_nonws is_ws_def)
      show ?thesis
        unfolding step s1 unfolding t using ih s2 by simp
    qed
    then show "parse_members (dumps_members rt level ((k, v) # kvs) @ newline_indent l' @ 0x7D # rest)
                 = Some ((k, v) # kvs, rest)"
      by (auto simp: tail_def ascii_def encode_string_def split: if_splits)
  qed
qed

lemma json_loads_dumps: "json_ok v \<Longrightarrow> json_loads (json_dumps rt v) = Some v"
proof -
  assume ok: "json_ok v"
  obtain c t where f: "dumps rt 0 v = c # t" "\<not> is_ws c" "c \<noteq> 0xFEFF"
    using dumps_first [OF ok] by blast
  have "delim []" by (simp add: delim_def)
  with parse_dumps(1) [of v rt 0] ok have "parse_value (dumps rt 0 v @ []) = Some (v, [])"
    by blast
  then have "parse_value (c # t) = Some (v, [])" by (simp add: f(1))
  then show ?thesis
    using f by (simp add: json_loads_def json_dumps_def skip_ws_nonws skip_ws_Nil)
qed

section \<open>Facts about the operations\<close>

subsection \<open>Loading, adding, updating\<close>

lemma load_tasks_eq: "load_tasks w = (fst (load_tasks w), w\<lparr>ops := ops w @ [Load]\<rparr>)"
  by (simp add: load_tasks_def Let_def split: option.splits json.splits)

lemma add_task_empty: "add_task rt [] w = (Done, w\<lparr>out := out w @ [ascii ''Error: Cannot add an empty task.'']\<rparr>)"
  by (simp add: add_task_def py_print_def)

lemma update_task_unfold:
  "update_task rt s action w =
     (case py_int rt s of
        None \<Rightarrow>
          (Done, py_print (ascii ''Error: Invalid task number '' @ [0x27] @ s @ [0x27]
                           @ ascii ''. Must be an integer.'') w)
      | Some n \<Rightarrow>
          let task_index = n - 1;
              tasks = fst (load_tasks w);
              w1 = w\<lparr>ops := ops w @ [Load]\<rparr>
          in if 0 \<le> task_index \<and> task_index < int (length tasks) then
               (let i = nat task_index in
                if action = ascii ''complete'' then
                  (case getitem (tasks ! i) (ascii ''status'') of
                     Inl e \<Rightarrow> (Raised e, w1)
                   | Inr st \<Rightarrow>
                       if st = JStr (ascii ''complete'') then
                         (Done, py_print (ascii ''Task '' @ str_int (task_index + 1)
                                          @ ascii '' is already marked as complete.'') w1)
                       else
                         let tasks' = tasks[i := setitem (tasks ! i) (ascii ''status'')
                                                   (JStr (ascii ''complete''))];
                             w2 = save_tasks rt tasks' w1
                         in (case getitem (tasks' ! i) (ascii ''description'') of
                               Inl e \<Rightarrow> (Raised e, w2)
                             | Inr d \<Rightarrow>
                                 (Done, py_print (ascii ''Task '' @ str_int (task_index + 1)
                                                  @ ascii '' marked as complete: \"'' @ py_str rt d
                                                  @ ascii ''\"'') w2)))
                else if action = ascii ''remove'' then
                  (let removed_task = tasks ! i;
                       tasks' = take i tasks @ drop (i + 1) tasks;
                       w2 = save_tasks rt tasks' w1
                   in case getitem removed_task (ascii ''description'') of
                        Inl e \<Rightarrow> (Raised e, w2)
                      | Inr d \<Rightarrow>
                          (Done, py_print (ascii ''Task '' @ str_int (task_index + 1)
                                           @ ascii '' removed: \"'' @ py_str rt d @ ascii ''\"'') w2))
                else (Done, w1))
             else
               (let w2 = py_print (ascii ''Error: Task number '' @ str_int (task_index + 1)
                                   @ ascii '' not found.'') w1
                in if tasks = [] then (Done, py_print (ascii ''You have no tasks.'') w2)
                   else (Done, py_print (ascii ''Valid task numbers are 1 to ''
                                         @ str_int (int (length tasks)) @ ascii ''.'') w2)))"
  unfolding update_task_def by (subst load_tasks_eq, cases "py_int rt s") (simp_all add: Let_def)

lemma update_task_invalid_number:
  "py_int rt s = None \<Longrightarrow>
   update_task rt s action w =
     (Done, w\<lparr>out := out w @ [ascii ''Error: Invalid task number '' @ [0x27] @ s @ [0x27]
                              @ ascii ''. Must be an integer.'']\<rparr>)"
  by (simp add: update_task_def py_print_def)

lemma update_task_not_found:
  assumes "py_int rt s = Some n" and "n < 1 \<or> int (length (fst (load_tasks w))) < n"
  shows "update_task rt s action w =
     (Done, w\<lparr>out := out w @ [ascii ''Error: Task number '' @ str_int n @ ascii '' not found.'',
                              if fst (load_tasks w) = [] then ascii ''You have no tasks.''
                              else ascii ''Valid task numbers are 1 to ''
                                   @ str_int (int (length (fst (load_tasks w)))) @ ascii ''.''],
              ops := ops w @ [Load]\<rparr>)"
  using assms by (auto simp: update_task_unfold py_print_def Let_def)

lemma update_task_already_complete:
  assumes "py_int rt s = Some n" and "1 \<le> n" and "n \<le> int (length (fst (load_tasks w)))"
    and "getitem (fst (load_tasks w) ! nat (n - 1)) (ascii ''status'') = Inr (JStr (ascii ''complete''))"
  shows "update_task rt s (ascii ''complete'') w =
     (Done, w\<lparr>out := out w @ [ascii ''Task '' @ str_int n @ ascii '' is already marked as complete.''],
              ops := ops w @ [Load]\<rparr>)"
  using assms by (auto simp: update_task_unfold py_print_def Let_def)

lemma print_tasks_no_exit: "fst (print_tasks rt i ts w) \<noteq> Exit n"
  by (induction ts arbitrary: i w) (auto split: json.splits)

lemma list_tasks_no_exit: "fst (list_tasks rt w) \<noteq> Exit n"
  using print_tasks_no_exit [of rt 1 "fst (load_tasks w)"
      "py_print (ascii ''--- Your Tasks ---'') (snd (load_tasks w))" n]
  by (auto simp: list_tasks_def Let_def split: prod.splits outcome.splits)

lemma add_task_done: "fst (add_task rt d w) = Done"
  by (simp add: add_task_def Let_def split: prod.splits)

lemma update_task_no_exit: "fst (update_task rt s a w) \<noteq> Exit n"
  by (auto simp: update_task_unfold Let_def split: option.splits sum.splits)

lemma print_tasks_dicts:
  "list_all is_dict ts \<Longrightarrow>
   print_tasks rt i ts w =
     (Done, w\<lparr>out := out w @ map (\<lambda>(k, t). task_line rt k (the_dict t)) (zip [i ..< i + length ts] ts)\<rparr>)"
proof (induction ts arbitrary: i w)
  case Nil
  then show ?case by simp
next
  case (Cons t ts)
  then obtain d where t: "t = JObj d" by (cases t) (simp_all add: is_dict_def)
  have up: "[i ..< i + length (t # ts)] = i # [i + 1 ..< (i + 1) + length ts]"
    by (subst upt_rec) simp
  from Cons show ?case
    unfolding up by (simp add: t py_print_def the_dict_def)
qed

lemma list_tasks_dicts:
  assumes "fst (load_tasks w) = tasks" and "tasks \<noteq> []" and "list_all is_dict tasks"
  shows "list_tasks rt w =
           (Done, w\<lparr>out := out w @ [ascii ''--- Your Tasks ---'']
                           @ map (\<lambda>(i, t). task_line rt i (the_dict t)) (zip [1 ..< 1 + length tasks] tasks)
                           @ [ascii ''------------------''],
                    ops := ops w @ [Load]\<rparr>)"
  unfolding list_tasks_def
  by (subst load_tasks_eq) (simp add: assms print_tasks_dicts py_print_def)

subsection \<open>The dispatcher\<close>

lemma main_no_command:
  "length argv < 2 \<Longrightarrow>
   main rt argv w = (Exit 1, show_help (py_print (ascii ''Error: No command provided.'') w))"
  by (simp add: main_def)

lemma main_unknown:
  "\<not> length argv < 2 \<Longrightarrow> py_lower rt (argv ! 1) \<notin> set commands \<Longrightarrow>
   main rt argv w =
     (Exit 1, show_help (py_print (ascii ''Error: Unknown command '' @ [0x27] @ py_lower rt (argv ! 1)
                                   @ [0x27]) w))"
  by (simp add: main_def commands_def Let_def)

lemma main_list:
  "\<not> length argv < 2 \<Longrightarrow> py_lower rt (argv ! 1) = ascii ''list'' \<Longrightarrow> main rt argv w = list_tasks rt w"
  by (simp add: main_def Let_def)

lemma main_add:
  "\<not> length argv < 2 \<Longrightarrow> py_lower rt (argv ! 1) = ascii ''add'' \<Longrightarrow>
   main rt argv w =
     (if length argv < 3 then
        (Done, py_print (ascii ''Example: python task_tracker.py add \"Buy groceries\"'')
                 (py_print (ascii ''Error: 'add' command requires a task description.'') w))
      else add_task rt (join (ascii '' '') (drop 2 argv)) w)"
  by (simp add: main_def Let_def ascii_def)

lemma main_complete:
  "\<not> length argv < 2 \<Longrightarrow> py_lower rt (argv ! 1) = ascii ''complete'' \<Longrightarrow>
   main rt argv w =
     (if length argv < 3 then
        (Done, py_print (ascii ''Example: python task_tracker.py complete 2'')
                 (py_print (ascii ''Error: 'complete' command requires a task number.'') w))
      else update_task rt (argv ! 2) (ascii ''complete'') w)"
  by (simp add: main_def Let_def complete_task_def ascii_def)

lemma main_remove:
  "\<not> length argv < 2 \<Longrightarrow> py_lower rt (argv ! 1) = ascii ''remove'' \<Longrightarrow>
   main rt argv w =
     (if length argv < 3 then
        (Done, py_print (ascii ''Example: python task_tracker.py remove 1'')
                 (py_print (ascii ''Error: 'remove' command requires a task number.'') w))
      else update_task rt (argv ! 2) (ascii ''remove'') w)"
  by (simp add: main_def Let_def remove_task_def ascii_def)

lemma main_help:
  "\<not> length argv < 2 \<Longrightarrow> py_lower rt (argv ! 1) = ascii ''help'' \<Longrightarrow> main rt argv w = (Done, show_help w)"
  by (simp add: main_def Let_def ascii_def)

lemma main_exit_iff:
  "fst (main rt argv w) = Exit n \<longleftrightarrow>
      n = 1 \<and> (length argv < 2 \<or> py_lower rt (argv ! 1) \<notin> set commands)"
proof (cases "length argv < 2")
  case True
  then show ?thesis by (auto simp: main_no_command)
next
  case False
  consider (l) "py_lower rt (argv ! 1) = ascii ''list''"
    | (a) "py_lower rt (argv ! 1) = ascii ''add''"
    | (c) "py_lower rt (argv ! 1) = ascii ''complete''"
    | (r) "py_lower rt (argv ! 1) = ascii ''remove''"
    | (h) "py_lower rt (argv ! 1) = ascii ''help''"
    | (u) "py_lower rt (argv ! 1) \<notin> set commands"
    by (auto simp: commands_def)
  then show ?thesis
  proof cases
    case l
    then show ?thesis using False list_tasks_no_exit [of rt w n]
      by (simp add: main_list commands_def)
  next
    case a
    then show ?thesis using False add_task_done [of rt "join (ascii '' '') (drop 2 argv)" w]
      by (simp add: main_add commands_def)
  next
    case c
    then show ?thesis using False update_task_no_exit [of rt "argv ! 2" "ascii ''complete''" w n]
      by (simp add: main_complete commands_def)
  next
    case r
    then show ?thesis using False update_task_no_exit [of rt "argv ! 2" "ascii ''remove''" w n]
      by (simp add: main_remove commands_def)
  next
    case h
    then show ?thesis using False by (simp add: main_help commands_def)
  next
    case u
    then show ?thesis using False by (auto simp: main_unknown)
  qed
qed

subsection \<open>Saving and loading\<close>

lemma save_tasks_ok:
  "write_error w = None \<Longrightarrow>
   save_tasks rt ts w =
     w\<lparr>json_file := Some (json_dumps rt (JArr ts)), ops := ops w @ [Store (json_dumps rt (JArr ts))]\<rparr>"
  by (simp add: save_tasks_def)

lemma save_tasks_failed:
  "write_error w = Some e \<Longrightarrow>
   save_tasks rt ts w =
     w\<lparr>out := out w @ [ascii ''Error: Could not save tasks to '' @ JSON_FILE @ ascii ''. '' @ e],
       ops := ops w @ [StoreFailed]\<rparr>"
  by (simp add: save_tasks_def py_print_def)

lemma load_tasks_dumped:
  "json_file w = Some (json_dumps rt (JArr ts)) \<Longrightarrow> json_ok (JArr ts) \<Longrightarrow> fst (load_tasks w) = ts"
  by (simp add: load_tasks_def Let_def json_loads_dumps)

lemma load_after_save:
  "write_error w = None \<Longrightarrow> json_ok (JArr ts) \<Longrightarrow> fst (load_tasks (save_tasks rt ts w)) = ts"
  by (rule load_tasks_dumped [where rt = rt]) (simp_all add: save_tasks_ok)

subsection \<open>Lists and dicts that stay well-formed\<close>

lemma json_ok_list_all: "json_ok_list vs = list_all json_ok vs"
  by (induction vs) simp_all

lemma json_ok_members_all: "json_ok_members kvs = list_all (\<lambda>(k, v). text_ok k \<and> json_ok v) kvs"
  by (induction kvs) auto

lemma json_ok_list_remove: "json_ok_list vs \<Longrightarrow> json_ok_list (take i vs @ drop j vs)"
  by (auto simp: json_ok_list_all list_all_iff dest: in_set_takeD in_set_dropD)

lemma json_ok_list_update: "json_ok_list vs \<Longrightarrow> json_ok v \<Longrightarrow> json_ok_list (vs[i := v])"
  by (auto simp: json_ok_list_all list_all_iff dest!: set_update_subset_insert [THEN subsetD])

lemma json_ok_list_append: "json_ok_list vs \<Longrightarrow> json_ok v \<Longrightarrow> json_ok_list (vs @ [v])"
  by (simp add: json_ok_list_all)

lemma json_ok_list_nth: "json_ok_list vs \<Longrightarrow> i < length vs \<Longrightarrow> json_ok (vs ! i)"
  by (simp add: json_ok_list_all list_all_length)

lemma dict_set_keys:
  "map fst (dict_set k v d) = (if k \<in> fst ` set d then map fst d else map fst d @ [k])"
  by (induction d) (force simp: image_iff)+

lemma dict_set_members:
  "json_ok_members d \<Longrightarrow> text_ok k \<Longrightarrow> json_ok v \<Longrightarrow> json_ok_members (dict_set k v d)"
  by (induction d) auto

lemma json_ok_dict_set:
  "json_ok (JObj d) \<Longrightarrow> text_ok k \<Longrightarrow> json_ok v \<Longrightarrow> json_ok (JObj (dict_set k v d))"
  by (simp add: dict_set_keys dict_set_members)

lemma map_of_dict_set:
  "map_of (dict_set k v d) k' = (if k' = k then Some v else map_of d k')"
  by (induction d) auto

lemma text_ok_status: "text_ok (ascii ''status'') \<and> text_ok (ascii ''complete'')"
  by (simp add: text_ok_def ascii_def is_high_def)

lemma json_ok_new_task: "text_ok d \<Longrightarrow> json_ok (new_task d)"
  by (simp add: new_task_def text_ok_def ascii_def is_high_def)

lemma text_ok_buy_milk: "text_ok (ascii ''Buy milk'')"
  by (simp add: text_ok_def ascii_def is_high_def)

subsection \<open>The two actions on a task\<close>

lemma action_distinct: "ascii ''remove'' \<noteq> ascii ''complete''"
  by (simp add: ascii_def)

lemma update_task_remove:
  assumes "py_int rt s = Some (int i + 1)" and "i < length (fst (load_tasks w))"
  shows "update_task rt s (ascii ''remove'') w =
     (let tasks = fst (load_tasks w);
          w2 = save_tasks rt (take i tasks @ drop (Suc i) tasks) (w\<lparr>ops := ops w @ [Load]\<rparr>)
      in case getitem (tasks ! i) (ascii ''description'') of
           Inl e \<Rightarrow> (Raised e, w2)
         | Inr d \<Rightarrow>
             (Done, py_print (ascii ''Task '' @ str_int (int i + 1)
                              @ ascii '' removed: \"'' @ py_str rt d @ ascii ''\"'') w2))"
  using assms action_distinct by (simp add: update_task_unfold Let_def)

lemma update_task_complete:
  assumes "py_int rt s = Some (int i + 1)" and "i < length (fst (load_tasks w))"
    and "getitem (fst (load_tasks w) ! i) (ascii ''status'') = Inr st"
    and "st \<noteq> JStr (ascii ''complete'')"
  shows "update_task rt s (ascii ''complete'') w =
     (let tasks = fst (load_tasks w);
          tasks' = tasks[i := setitem (tasks ! i) (ascii ''status'') (JStr (ascii ''complete''))];
          w2 = save_tasks rt tasks' (w\<lparr>ops := ops w @ [Load]\<rparr>)
      in case getitem (tasks' ! i) (ascii ''description'') of
           Inl e \<Rightarrow> (Raised e, w2)
         | Inr d \<Rightarrow>
             (Done, py_print (ascii ''Task '' @ str_int (int i + 1)
                              @ ascii '' marked as complete: \"'' @ py_str rt d @ ascii ''\"'') w2))"
  using assms by (simp add: update_task_unfold Let_def)

lemma update_task_complete_saved:
  assumes "py_int rt s = Some (int i + 1)" and "i < length (fst (load_tasks w))"
    and "getitem (fst (load_tasks w) ! i) (ascii ''status'') = Inr st"
    and "st \<noteq> JStr (ascii ''complete'')"
  shows "json_file (snd (update_task rt s (ascii ''complete'') w))
           = json_file (save_tasks rt
               ((fst (load_tasks w))[i := setitem (fst (load_tasks w) ! i) (ascii ''status'')
                                             (JStr (ascii ''complete''))])
               (w\<lparr>ops := ops w @ [Load]\<rparr>))
         \<and> write_error (snd (update_task rt s (ascii ''complete'') w)) = write_error w"
  unfolding update_task_complete [OF assms]
  by (simp add: Let_def py_print_def save_tasks_def split: sum.splits option.splits)

lemma getitem_dict: "getitem (JObj d) k = (case map_of d k of None \<Rightarrow> Inl KeyError | Some x \<Rightarrow> Inr x)"
  by (simp add: getitem_def)

lemma getitem_Inr_dict: "getitem v k = Inr x \<Longrightarrow> \<exists>d. v = JObj d \<and> map_of d k = Some x"
  by (cases v) (auto simp: getitem_def split: option.splits)

lemma remove_task_ok:
  assumes "py_int rt s = Some (int i + 1)" and "fst (load_tasks w) = tasks" and "i < length tasks"
    and "getitem (tasks ! i) (ascii ''description'') = Inr d"
    and "write_error w = None"
  shows "remove_task rt s w =
           (Done, w\<lparr>json_file := Some (json_dumps rt (JArr (take i tasks @ drop (Suc i) tasks))),
                    out := out w @ [ascii ''Task '' @ str_int (int i + 1) @ ascii '' removed: \"''
                                    @ py_str rt d @ ascii ''\"''],
                    ops := ops w @ [Load, Store (json_dumps rt (JArr (take i tasks @ drop (Suc i) tasks)))]\<rparr>)"
proof -
  have l: "i < length (fst (load_tasks w))" using assms(2,3) by simp
  show ?thesis
    unfolding remove_task_def update_task_remove [OF assms(1) l]
    using assms(2,4,5) by (simp add: Let_def save_tasks_ok py_print_def)
qed

lemma remove_task_failed:
  assumes "py_int rt s = Some (int i + 1)" and "fst (load_tasks w) = tasks" and "i < length tasks"
    and "getitem (tasks ! i) (ascii ''description'') = Inr d"
    and "write_error w = Some e"
  shows "remove_task rt s w =
           (Done, w\<lparr>out := out w @ [ascii ''Error: Could not save tasks to '' @ JSON_FILE @ ascii ''. '' @ e,
                                    ascii ''Task '' @ str_int (int i + 1) @ ascii '' removed: \"''
                                    @ py_str rt d @ ascii ''\"''],
                    ops := ops w @ [Load, StoreFailed]\<rparr>)"
proof -
  have l: "i < length (fst (load_tasks w))" using assms(2,3) by simp
  show ?thesis
    unfolding remove_task_def update_task_remove [OF assms(1) l]
    using assms(2,4,5) by (simp add: Let_def save_tasks_failed py_print_def)
qed

lemma complete_task_saved:
  assumes "py_int rt s = Some (int i + 1)" and "fst (load_tasks w) = tasks" and "i < length tasks"
    and "tasks ! i = JObj d" and "map_of d (ascii ''status'') = Some st"
    and "st \<noteq> JStr (ascii ''complete'')"
  shows "json_file (snd (complete_task rt s w))
           = (case write_error w of
                None \<Rightarrow> Some (json_dumps rt
                          (JArr (tasks[i := JObj (dict_set (ascii ''status'') (JStr (ascii ''complete'')) d)])))
              | Some e \<Rightarrow> json_file w)
         \<and> write_error (snd (complete_task rt s w)) = write_error w"
proof -
  have l: "i < length (fst (load_tasks w))" using assms(2,3) by simp
  have g: "getitem (fst (load_tasks w) ! i) (ascii ''status'') = Inr st"
    using assms(2,4,5) by (simp add: getitem_def)
  show ?thesis
    unfolding complete_task_def
    using update_task_complete_saved [OF assms(1) l g assms(6)] assms(2,4)
    by (simp add: setitem_def save_tasks_def py_print_def split: option.splits)
qed

lemma complete_task_again:
  assumes "py_int rt s = Some (int i + 1)" and "fst (load_tasks w) = tasks" and "i < length tasks"
    and "getitem (tasks ! i) (ascii ''status'') = Inr (JStr (ascii ''complete''))"
  shows "complete_task rt s w =
           (Done, w\<lparr>out := out w @ [ascii ''Task '' @ str_int (int i + 1)
                                    @ ascii '' is already marked as complete.''],
                    ops := ops w @ [Load]\<rparr>)"
  unfolding complete_task_def
  using assms by (intro update_task_already_complete) simp_all

subsection \<open>The concrete states\<close>

lemma two_tasks_world_fields:
  "out two_tasks_world = [] \<and> ops two_tasks_world = [] \<and> write_error two_tasks_world = None"
  by (simp add: two_tasks_world_def)

lemma odd_tasks_world_fields:
  "out odd_tasks_world = [] \<and> ops odd_tasks_world = [] \<and> write_error odd_tasks_world = None"
  by (simp add: odd_tasks_world_def)

lemma load_two_tasks: "fst (load_tasks two_tasks_world) = two_tasks"
  by (simp add: load_tasks_def two_tasks_world_def two_tasks_def parse_eval)

lemma py_int_5: "py_int plain_runtime (ascii ''5'') = Some 5"
  by (simp add: int_eval)

lemma py_int_abc: "py_int plain_runtime (ascii ''abc'') = None"
  by (simp add: int_eval)

lemma py_int_misc: "py_int plain_runtime (ascii '' +1_000 '') = Some 1000 \<and> py_int plain_runtime (ascii ''-7'') = Some (-7)
   \<and> py_int plain_runtime (ascii ''1__0'') = None \<and> py_int plain_runtime (ascii ''_1'') = None
   \<and> py_int plain_runtime (ascii ''1_'') = None \<and> py_int plain_runtime (ascii ''- 1'') = None
   \<and> py_int plain_runtime (ascii '''') = None \<and> py_int plain_runtime (ascii ''007'') = Some 7"
  by (simp add: int_eval)

lemma json_ok_two_tasks: "json_ok (JArr two_tasks)"
  by (simp add: two_tasks_def text_ok_def ascii_def is_high_def)

lemma empty_world_fields:
  "out empty_world = [] \<and> ops empty_world = [] \<and> write_error empty_world = None
   \<and> json_file empty_world = None"
  by (simp add: empty_world_def)

lemma load_empty_world: "fst (load_tasks empty_world) = []"
  by (simp add: load_tasks_def empty_world_def)

lemma load_locked_world: "fst (load_tasks locked_world) = two_tasks"
  by (simp add: load_tasks_def locked_world_def two_tasks_world_def two_tasks_def parse_eval)

lemma locked_world_fields:
  "out locked_world = [] \<and> ops locked_world = []
   \<and> write_error locked_world = Some (ascii ''Permission denied'')
   \<and> json_file locked_world = json_file two_tasks_world"
  by (simp add: locked_world_def two_tasks_world_def)

lemma py_int_1: "py_int plain_runtime (ascii ''1'') = Some (int 0 + 1)"
  by (simp add: int_eval)

lemma py_int_2: "py_int plain_runtime (ascii ''2'') = Some (int 1 + 1)"
  by (simp add: int_eval)

lemma add_then_list:
  assumes "fst (load_tasks w) = []" and "write_error w = None"
  shows "list_tasks rt (snd (add_task rt (ascii ''Buy milk'') w)) =
           (Done, w\<lparr>json_file := Some (json_dumps rt (JArr [new_task (ascii ''Buy milk'')])),
                    out := out w @ [ascii ''Task added: \"Buy milk\"'',
                                    ascii ''--- Your Tasks ---'',
                                    ascii ''  1. [ ] Buy milk'',
                                    ascii ''------------------''],
                    ops := ops w @ [Load, Store (json_dumps rt (JArr [new_task (ascii ''Buy milk'')])),
                                    Load]\<rparr>)"
proof -
  define w1 where
    "w1 = w\<lparr>json_file := Some (json_dumps rt (JArr [new_task (ascii ''Buy milk'')])),
            out := out w @ [ascii ''Task added: \"Buy milk\"''],
            ops := ops w @ [Load, Store (json_dumps rt (JArr [new_task (ascii ''Buy milk'')]))]\<rparr>"
  have ne: "ascii ''Buy milk'' \<noteq> []" by (simp add: ascii_def)
  have a: "snd (add_task rt (ascii ''Buy milk'') w) = w1"
    unfolding add_task_def
    by (subst load_tasks_eq) (simp add: ne assms save_tasks_ok py_print_def w1_def ascii_def)
  have ok: "json_ok (JArr [new_task (ascii ''Buy milk'')])"
    using text_ok_buy_milk by (simp add: json_ok_new_task)
  have f: "json_file w1 = Some (json_dumps rt (JArr [new_task (ascii ''Buy milk'')]))"
    by (simp add: w1_def)
  have l: "fst (load_tasks w1) = [new_task (ascii ''Buy milk'')]"
    using f ok by (rule load_tasks_dumped)
  have "list_tasks rt w1 =
          (Done, w1\<lparr>out := out w1 @ [ascii ''--- Your Tasks ---'']
                           @ map (\<lambda>(i, t). task_line rt i (the_dict t))
                               (zip [1 ..< 1 + length [new_task (ascii ''Buy milk'')]]
                                    [new_task (ascii ''Buy milk'')])
                           @ [ascii ''------------------''],
                     ops := ops w1 @ [Load]\<rparr>)"
    using l by (rule list_tasks_dicts) (simp_all add: new_task_def is_dict_def)
  then show ?thesis
    unfolding a
    by (simp add: w1_def new_task_def the_dict_def task_line_def status_icon_def py_str_def
          str_int_def str_nat.simps ascii_def)
qed

lemma scalar_entry_world_fields: "out scalar_entry_world = [] \<and> ops scalar_entry_world = []"
  by (simp add: scalar_entry_world_def)

lemma load_scalar_entry: "fst (load_tasks scalar_entry_world) = [JInt 5]"
  by (simp add: load_tasks_def scalar_entry_world_def parse_eval)

lemma list_scalar_entry:
  "list_tasks plain_runtime scalar_entry_world
     = (Raised AttributeError,
        scalar_entry_world\<lparr>out := [ascii ''--- Your Tasks ---''], ops := [Load]\<rparr>)"
  unfolding list_tasks_def
  by (subst load_tasks_eq) (simp add: load_scalar_entry py_print_def scalar_entry_world_fields)

section \<open>The claims of the specification\<close>

subsection \<open>C1: what add rejects\<close>

text \<open>
  Claim C1. \<open>add_task\<close> rejects the empty description: it prints the error and returns
  without loading or writing the task list. The test of the source is
  \<open>if not description\<close>, so nothing else is rejected: every description that is not
  empty, one made of spaces included, is appended as a pending task to the loaded list
  and written to the task file (here for a file that can be written).
\<close>

theorem add_task_rejects_empty_only:
  "add_task rt [] w = (Done, w\<lparr>out := out w @ [ascii ''Error: Cannot add an empty task.'']\<rparr>)
   \<and> (d \<noteq> [] \<and> write_error w = None \<longrightarrow>
        add_task rt d w =
          (Done, w\<lparr>json_file := Some (json_dumps rt (JArr (fst (load_tasks w) @ [new_task d]))),
                   out := out w @ [ascii ''Task added: \"'' @ d @ ascii ''\"''],
                   ops := ops w @ [Load, Store (json_dumps rt
                                                 (JArr (fst (load_tasks w) @ [new_task d])))]\<rparr>))"
proof (intro conjI impI)
  show "add_task rt [] w = (Done, w\<lparr>out := out w @ [ascii ''Error: Cannot add an empty task.'']\<rparr>)"
    by (rule add_task_empty)
next
  assume "d \<noteq> [] \<and> write_error w = None"
  then show "add_task rt d w =
          (Done, w\<lparr>json_file := Some (json_dumps rt (JArr (fst (load_tasks w) @ [new_task d]))),
                   out := out w @ [ascii ''Task added: \"'' @ d @ ascii ''\"''],
                   ops := ops w @ [Load, Store (json_dumps rt
                                                 (JArr (fst (load_tasks w) @ [new_task d])))]\<rparr>)"
    unfolding add_task_def by (subst load_tasks_eq) (simp add: save_tasks_ok py_print_def)
qed

text \<open>The empty description and the description \<open>x\<close>, on a file of two tasks.\<close>

theorem add_task_rejects_empty_only_witness:
  "add_task plain_runtime [] two_tasks_world
     = (Done, two_tasks_world\<lparr>out := [ascii ''Error: Cannot add an empty task.'']\<rparr>)
   \<and> fst (load_tasks (snd (add_task plain_runtime (ascii ''x'') two_tasks_world)))
       = two_tasks @ [new_task (ascii ''x'')]"
proof -
  note th = add_task_rejects_empty_only [of plain_runtime two_tasks_world "ascii ''x''"]
  have a: "add_task plain_runtime [] two_tasks_world
             = (Done, two_tasks_world\<lparr>out := [ascii ''Error: Cannot add an empty task.'']\<rparr>)"
    using th [THEN conjunct1] by (simp add: two_tasks_world_fields)
  have "ascii ''x'' \<noteq> [] \<and> write_error two_tasks_world = None"
    by (simp add: two_tasks_world_fields ascii_def)
  then have "json_file (snd (add_task plain_runtime (ascii ''x'') two_tasks_world))
               = Some (json_dumps plain_runtime (JArr (two_tasks @ [new_task (ascii ''x'')])))"
    using th [THEN conjunct2] by (simp add: load_two_tasks)
  moreover have "json_ok (JArr (two_tasks @ [new_task (ascii ''x'')]))"
    using json_ok_two_tasks by (simp add: json_ok_list_append json_ok_new_task text_ok_def ascii_def)
  ultimately have b: "fst (load_tasks (snd (add_task plain_runtime (ascii ''x'') two_tasks_world)))
       = two_tasks @ [new_task (ascii ''x'')]"
    by (rule load_tasks_dumped)
  from a b show ?thesis by (rule conjI)
qed

text \<open>
  A description of one space is not rejected: the task is written to the file and the
  confirmation is printed.
\<close>

theorem add_task_whitespace_counterexample:
  "json_file (snd (add_task plain_runtime [0x20] empty_world))
     = Some (ascii ''[\<newline>    {\<newline>        \"description\": \" \",\<newline>        \"status\": \"pending\"\<newline>    }\<newline>]'')
   \<and> out (snd (add_task plain_runtime [0x20] empty_world)) = [ascii ''Task added: \" \"'']
   \<and> ops (snd (add_task plain_runtime [0x20] empty_world)) \<noteq> ops empty_world"
  by (simp add: prog_eval dump_eval2)

subsection \<open>C2: add, then list\<close>

text \<open>
  Claim C2. From a storage that loads as the empty list, \<open>add_task\<close> with the
  description \<open>Buy milk\<close> followed by \<open>list_tasks\<close>: when the task file can be written,
  the listing is three lines, the header, the line of the task (two spaces, then
  \<open>1. [ ] Buy milk\<close>) and the footer, after the confirmation that \<open>add_task\<close> printed.
\<close>

theorem add_then_list_three_lines:
  assumes "fst (load_tasks w) = []" and "write_error w = None"
  shows "list_tasks rt (snd (add_task rt (ascii ''Buy milk'') w)) =
           (Done, w\<lparr>json_file := Some (json_dumps rt (JArr [new_task (ascii ''Buy milk'')])),
                    out := out w @ [ascii ''Task added: \"Buy milk\"'',
                                    ascii ''--- Your Tasks ---'',
                                    ascii ''  1. [ ] Buy milk'',
                                    ascii ''------------------''],
                    ops := ops w @ [Load, Store (json_dumps rt (JArr [new_task (ascii ''Buy milk'')])),
                                    Load]\<rparr>)"
  using assms by (rule add_then_list)

theorem add_then_list_three_lines_witness:
  "out (snd (list_tasks plain_runtime (snd (add_task plain_runtime (ascii ''Buy milk'') empty_world))))
     = [ascii ''Task added: \"Buy milk\"'',
        ascii ''--- Your Tasks ---'',
        ascii ''  1. [ ] Buy milk'',
        ascii ''------------------'']"
proof -
  have w: "write_error empty_world = None" by (simp add: empty_world_fields)
  show ?thesis
    unfolding add_then_list_three_lines [OF load_empty_world w]
    by (simp add: empty_world_fields)
qed

text \<open>
  The listing is three lines, not the single line \<open>1. [ ] Buy milk\<close>; and when the file
  cannot be written nothing was stored, so the listing is the hint for an empty list.
\<close>

theorem add_then_list_counterexample:
  "drop (length (out (snd (add_task plain_runtime (ascii ''Buy milk'') empty_world))))
        (out (snd (list_tasks plain_runtime (snd (add_task plain_runtime (ascii ''Buy milk'') empty_world)))))
     = [ascii ''--- Your Tasks ---'', ascii ''  1. [ ] Buy milk'', ascii ''------------------'']
   \<and> [ascii ''--- Your Tasks ---'', ascii ''  1. [ ] Buy milk'', ascii ''------------------'']
       \<noteq> [ascii ''1. [ ] Buy milk'']
   \<and> out (snd (list_tasks plain_runtime (snd (add_task plain_runtime (ascii ''Buy milk'') read_only_world))))
       = [ascii ''Error: Could not save tasks to tasks.json. Permission denied'',
          ascii ''Task added: \"Buy milk\"'',
          ascii ''No tasks found. Add one with the 'add' command!'']"
proof -
  have w: "write_error empty_world = None" by (simp add: empty_world_fields)
  have "out (snd (add_task plain_runtime (ascii ''Buy milk'') empty_world))
          = [ascii ''Task added: \"Buy milk\"'']"
    by (simp add: add_task_def load_tasks_def save_tasks_def empty_world_def py_print_def ascii_def)
  then have a: "drop (length (out (snd (add_task plain_runtime (ascii ''Buy milk'') empty_world))))
        (out (snd (list_tasks plain_runtime (snd (add_task plain_runtime (ascii ''Buy milk'') empty_world)))))
     = [ascii ''--- Your Tasks ---'', ascii ''  1. [ ] Buy milk'', ascii ''------------------'']"
    unfolding add_then_list [OF load_empty_world w]
    by (simp add: empty_world_fields)
  have b: "[ascii ''--- Your Tasks ---'', ascii ''  1. [ ] Buy milk'', ascii ''------------------'']
       \<noteq> [ascii ''1. [ ] Buy milk'']"
    by simp
  have c: "out (snd (list_tasks plain_runtime (snd (add_task plain_runtime (ascii ''Buy milk'') read_only_world))))
       = [ascii ''Error: Could not save tasks to tasks.json. Permission denied'',
          ascii ''Task added: \"Buy milk\"'',
          ascii ''No tasks found. Add one with the 'add' command!'']"
    by (simp add: add_task_def list_tasks_def load_tasks_def save_tasks_def read_only_world_def
          py_print_def JSON_FILE_def ascii_def)
  from a b c show ?thesis by (intro conjI)
qed

subsection \<open>C3: a storage that cannot be read as a list\<close>

text \<open>
  On a file that was read as text, \<open>load_tasks\<close> returns the empty list when there is no
  file, when the text is not valid JSON, and when it is valid JSON whose top-level value
  is not an array; it only loads. Examples: no file, an object, a string, a text cut
  short, and an empty file.
\<close>

lemma load_tasks_bad_text:
  assumes "json_file w = None
           \<or> (\<exists>c. json_file w = Some c
                  \<and> (json_loads c = None \<or> (\<exists>v. json_loads c = Some v \<and> (\<forall>ts. v \<noteq> JArr ts))))"
  shows "load_tasks w = ([], w\<lparr>ops := ops w @ [Load]\<rparr>)"
  using assms by (auto simp: load_tasks_def Let_def split: option.splits json.splits)

lemma load_tasks_bad_text_examples:
  "load_tasks empty_world = ([], empty_world\<lparr>ops := [Load]\<rparr>)
   \<and> fst (load_tasks (empty_world\<lparr>json_file := Some (ascii ''{\"a\": 1}'')\<rparr>)) = []
   \<and> fst (load_tasks (empty_world\<lparr>json_file := Some (ascii ''\"hello\"'')\<rparr>)) = []
   \<and> fst (load_tasks (empty_world\<lparr>json_file := Some (ascii ''[1, 2'')\<rparr>)) = []
   \<and> fst (load_tasks (empty_world\<lparr>json_file := Some []\<rparr>)) = []"
proof -
  have a: "load_tasks empty_world = ([], empty_world\<lparr>ops := [Load]\<rparr>)"
    using load_tasks_bad_text [of empty_world] by (simp add: empty_world_fields)
  have "json_loads (ascii ''{\"a\": 1}'') = Some (JObj [(ascii ''a'', JInt 1)])"
    by (simp add: parse_eval)
  then have b: "fst (load_tasks (empty_world\<lparr>json_file := Some (ascii ''{\"a\": 1}'')\<rparr>)) = []"
    using load_tasks_bad_text [of "empty_world\<lparr>json_file := Some (ascii ''{\"a\": 1}'')\<rparr>"]
    by simp
  have "json_loads (ascii ''\"hello\"'') = Some (JStr (ascii ''hello''))"
    by (simp add: parse_eval)
  then have c: "fst (load_tasks (empty_world\<lparr>json_file := Some (ascii ''\"hello\"'')\<rparr>)) = []"
    using load_tasks_bad_text [of "empty_world\<lparr>json_file := Some (ascii ''\"hello\"'')\<rparr>"]
    by simp
  have "json_loads (ascii ''[1, 2'') = None"
    by (simp add: parse_eval)
  then have d: "fst (load_tasks (empty_world\<lparr>json_file := Some (ascii ''[1, 2'')\<rparr>)) = []"
    using load_tasks_bad_text [of "empty_world\<lparr>json_file := Some (ascii ''[1, 2'')\<rparr>"]
    by simp
  have "json_loads [] = None"
    by (simp add: parse_eval)
  then have e: "fst (load_tasks (empty_world\<lparr>json_file := Some []\<rparr>)) = []"
    using load_tasks_bad_text [of "empty_world\<lparr>json_file := Some []\<rparr>"]
    by simp
  from a b c d e show ?thesis by (intro conjI)
qed

text \<open>
  The strict decoder on single characters of one to four bytes, and on an overlong form,
  an encoded surrogate, a lone continuation byte, a character cut short and the byte
  \<open>FF\<close>.
\<close>

lemma utf8_decode_examples:
  "utf8_decode [0x41] = Some [0x41]
   \<and> utf8_decode [0xC3, 0xA9] = Some [0xE9]
   \<and> utf8_decode [0xE2, 0x82, 0xAC] = Some [0x20AC]
   \<and> utf8_decode [0xF0, 0x9F, 0x98, 0x80] = Some [0x1F600]
   \<and> utf8_decode [0xC0, 0x80] = None
   \<and> utf8_decode [0xED, 0xA0, 0x80] = None
   \<and> utf8_decode [0x80] = None
   \<and> utf8_decode [0xE2, 0x82] = None
   \<and> utf8_decode [0xFF] = None"
  by (simp add: is_cont_def)

text \<open>
  From the bytes of the file: without a file the result is the empty list, and bytes that
  decode give the result of \<open>load_tasks\<close> on their text, as for the object \<open>{}\<close>.
\<close>

lemma load_tasks_bytes_absent: "load_tasks_bytes None = Inr []"
  by (simp add: load_tasks_bytes_def)

lemma load_tasks_bytes_decoded:
  "utf8_decode bs = Some s \<Longrightarrow>
   load_tasks_bytes (Some bs) =
     Inr (fst (load_tasks \<lparr>json_file = Some (universal_newlines s), write_error = None,
                           out = [], ops = []\<rparr>))"
  by (simp add: load_tasks_bytes_def read_text_def)

lemma load_tasks_bytes_object: "load_tasks_bytes (Some [0x7B, 0x7D]) = Inr []"
  by (simp add: load_tasks_bytes_def read_text_def load_tasks_def parse_eval)

text \<open>
  Claim C3. \<open>load_tasks\<close> is to return the empty list, and never to raise to its caller,
  when the task file is absent, is not valid JSON or is corrupt, or holds a value that is
  no array. A file whose bytes are not valid UTF-8 is corrupt, and on it the claim fails:
  reading the file raises \<open>UnicodeDecodeError\<close> inside \<open>json.load\<close>, and the handler,
  which its comment gives as the one for a file that is empty or corrupt, catches
  \<open>json.JSONDecodeError\<close> only. So the error escapes from \<open>load_tasks\<close>, here on the
  file that holds the single byte \<open>FF\<close>.
\<close>

theorem load_tasks_bytes_undecodable:
  "utf8_decode [0xFF] = None \<and> load_tasks_bytes (Some [0xFF]) = Inl UnicodeDecodeError"
  by (simp add: load_tasks_bytes_def read_text_def)

subsection \<open>C4: completing a task that is complete\<close>

text \<open>
  Claim C4. For a valid 1-based index whose task already has the status \<open>complete\<close>,
  \<open>complete_task\<close> prints that the task is already marked as complete and only loads:
  nothing is written and the world is otherwise unchanged. Completing is idempotent: after
  a \<open>complete_task\<close> that changed the status and was saved, a second call on the same
  index is such a report and changes nothing.
\<close>

theorem complete_task_already_complete:
  assumes "py_int rt s = Some (int i + 1)" and "fst (load_tasks w) = tasks" and "i < length tasks"
  shows "(getitem (tasks ! i) (ascii ''status'') = Inr (JStr (ascii ''complete'')) \<longrightarrow>
            complete_task rt s w =
              (Done, w\<lparr>out := out w @ [ascii ''Task '' @ str_int (int i + 1)
                                       @ ascii '' is already marked as complete.''],
                       ops := ops w @ [Load]\<rparr>))
         \<and> (\<forall>st. getitem (tasks ! i) (ascii ''status'') = Inr st \<and> st \<noteq> JStr (ascii ''complete'')
                  \<and> json_ok (JArr tasks) \<and> write_error w = None \<longrightarrow>
              complete_task rt s (snd (complete_task rt s w)) =
                (Done, (snd (complete_task rt s w))
                         \<lparr>out := out (snd (complete_task rt s w))
                                 @ [ascii ''Task '' @ str_int (int i + 1)
                                    @ ascii '' is already marked as complete.''],
                          ops := ops (snd (complete_task rt s w)) @ [Load]\<rparr>))"
proof (intro conjI allI impI)
  assume "getitem (tasks ! i) (ascii ''status'') = Inr (JStr (ascii ''complete''))"
  with assms show "complete_task rt s w =
              (Done, w\<lparr>out := out w @ [ascii ''Task '' @ str_int (int i + 1)
                                       @ ascii '' is already marked as complete.''],
                       ops := ops w @ [Load]\<rparr>)"
    by (rule complete_task_again)
next
  fix st
  assume h: "getitem (tasks ! i) (ascii ''status'') = Inr st \<and> st \<noteq> JStr (ascii ''complete'')
             \<and> json_ok (JArr tasks) \<and> write_error w = None"
  then obtain d where d: "tasks ! i = JObj d" "map_of d (ascii ''status'') = Some st"
    using getitem_Inr_dict by blast
  define d' where "d' = dict_set (ascii ''status'') (JStr (ascii ''complete'')) d"
  define tasks' where "tasks' = tasks[i := JObj d']"
  define w1 where "w1 = snd (complete_task rt s w)"
  have st: "st \<noteq> JStr (ascii ''complete'')" using h by simp
  have f: "json_file w1 = Some (json_dumps rt (JArr tasks'))"
    unfolding w1_def tasks'_def d'_def
    using complete_task_saved [OF assms d st] h by simp
  have "json_ok (tasks ! i)" using h assms(3) by (simp add: json_ok_list_nth)
  then have "json_ok (JObj d')"
    unfolding d(1) d'_def using text_ok_status by (intro json_ok_dict_set) simp_all
  with h have ok: "json_ok (JArr tasks')" by (simp add: tasks'_def json_ok_list_update)
  have l1: "fst (load_tasks w1) = tasks'" using f ok by (rule load_tasks_dumped)
  have i1: "i < length tasks'" using assms(3) by (simp add: tasks'_def)
  have g1: "getitem (tasks' ! i) (ascii ''status'') = Inr (JStr (ascii ''complete''))"
    using assms(3) by (simp add: tasks'_def d'_def getitem_def map_of_dict_set)
  show "complete_task rt s (snd (complete_task rt s w)) =
                (Done, (snd (complete_task rt s w))
                         \<lparr>out := out (snd (complete_task rt s w))
                                 @ [ascii ''Task '' @ str_int (int i + 1)
                                    @ ascii '' is already marked as complete.''],
                          ops := ops (snd (complete_task rt s w)) @ [Load]\<rparr>)"
    using complete_task_again [OF assms(1) l1 i1 g1] by (simp add: w1_def)
qed

text \<open>
  On the file of two tasks: the second task is complete, and the first is completed twice.
\<close>

theorem complete_task_already_complete_witness:
  "complete_task plain_runtime (ascii ''2'') two_tasks_world =
     (Done, two_tasks_world\<lparr>out := [ascii ''Task 2 is already marked as complete.''],
                             ops := [Load]\<rparr>)
   \<and> json_file (snd (complete_task plain_runtime (ascii ''1'')
                       (snd (complete_task plain_runtime (ascii ''1'') two_tasks_world))))
       = json_file (snd (complete_task plain_runtime (ascii ''1'') two_tasks_world))
   \<and> last (out (snd (complete_task plain_runtime (ascii ''1'')
                       (snd (complete_task plain_runtime (ascii ''1'') two_tasks_world)))))
       = ascii ''Task 1 is already marked as complete.''"
proof -
  have l: "1 < length two_tasks" by (simp add: two_tasks_def)
  have g: "getitem (two_tasks ! 1) (ascii ''status'') = Inr (JStr (ascii ''complete''))"
    by (simp add: two_tasks_def getitem_def ascii_def)
  have "complete_task plain_runtime (ascii ''2'') two_tasks_world =
          (Done, two_tasks_world\<lparr>out := out two_tasks_world
                                          @ [ascii ''Task '' @ str_int (int 1 + 1)
                                             @ ascii '' is already marked as complete.''],
                                  ops := ops two_tasks_world @ [Load]\<rparr>)"
    using complete_task_already_complete [OF py_int_2 load_two_tasks l, THEN conjunct1, THEN mp, OF g] .
  then have a: "complete_task plain_runtime (ascii ''2'') two_tasks_world =
     (Done, two_tasks_world\<lparr>out := [ascii ''Task 2 is already marked as complete.''],
                             ops := [Load]\<rparr>)"
    by (simp add: two_tasks_world_fields str_int_def str_nat.simps ascii_def)
  define w1 where "w1 = snd (complete_task plain_runtime (ascii ''1'') two_tasks_world)"
  have l0: "0 < length two_tasks" by (simp add: two_tasks_def)
  have h: "getitem (two_tasks ! 0) (ascii ''status'') = Inr (JStr (ascii ''pending''))
           \<and> JStr (ascii ''pending'') \<noteq> JStr (ascii ''complete'')
           \<and> json_ok (JArr two_tasks) \<and> write_error two_tasks_world = None"
    using json_ok_two_tasks
    by (simp add: two_tasks_world_fields) (simp add: two_tasks_def getitem_def ascii_def)
  have "complete_task plain_runtime (ascii ''1'') w1 =
          (Done, w1\<lparr>out := out w1 @ [ascii ''Task '' @ str_int (int 0 + 1)
                                      @ ascii '' is already marked as complete.''],
                     ops := ops w1 @ [Load]\<rparr>)"
    unfolding w1_def
    using complete_task_already_complete [OF py_int_1 load_two_tasks l0, THEN conjunct2, THEN spec,
        THEN mp, OF h] .
  then have "json_file (snd (complete_task plain_runtime (ascii ''1'') w1)) = json_file w1"
    and "last (out (snd (complete_task plain_runtime (ascii ''1'') w1)))
           = ascii ''Task 1 is already marked as complete.''"
    by (simp_all add: str_int_def str_nat.simps ascii_def)
  with a show ?thesis unfolding w1_def by (intro conjI)
qed

subsection \<open>C5: removing a task\<close>

text \<open>
  Claim C5. For a valid 1-based index \<open>i + 1\<close> into the loaded list, whose task has a
  description, and a task file that can be written: \<open>remove_task\<close> writes the list without
  the entry at position \<open>i\<close> to the file and prints the confirmation with the description
  of the removed task. The new list is one shorter, the entries before \<open>i\<close> keep their
  positions, every later entry moves down by one, and the new list is what a later load
  returns.
\<close>

theorem remove_task_removes_one:
  assumes "py_int rt s = Some (int i + 1)" and "fst (load_tasks w) = tasks" and "i < length tasks"
    and "getitem (tasks ! i) (ascii ''description'') = Inr d"
    and "write_error w = None"
    and "tasks' = take i tasks @ drop (Suc i) tasks"
  shows "remove_task rt s w =
           (Done, w\<lparr>json_file := Some (json_dumps rt (JArr tasks')),
                    out := out w @ [ascii ''Task '' @ str_int (int i + 1) @ ascii '' removed: \"''
                                    @ py_str rt d @ ascii ''\"''],
                    ops := ops w @ [Load, Store (json_dumps rt (JArr tasks'))]\<rparr>)
         \<and> length tasks' = length tasks - 1
         \<and> (\<forall>j. j < i \<longrightarrow> tasks' ! j = tasks ! j)
         \<and> (\<forall>j. i \<le> j \<and> j < length tasks' \<longrightarrow> tasks' ! j = tasks ! Suc j)
         \<and> (json_ok (JArr tasks) \<longrightarrow> fst (load_tasks (snd (remove_task rt s w))) = tasks')"
proof (intro conjI allI impI)
  show r: "remove_task rt s w =
           (Done, w\<lparr>json_file := Some (json_dumps rt (JArr tasks')),
                    out := out w @ [ascii ''Task '' @ str_int (int i + 1) @ ascii '' removed: \"''
                                    @ py_str rt d @ ascii ''\"''],
                    ops := ops w @ [Load, Store (json_dumps rt (JArr tasks'))]\<rparr>)"
    unfolding assms(6) using assms(1-5) by (rule remove_task_ok)
  show "length tasks' = length tasks - 1"
    using assms(3) by (simp add: assms(6))
  show "tasks' ! j = tasks ! j" if "j < i" for j
    using that assms(3) by (simp add: assms(6) nth_append)
  show "tasks' ! j = tasks ! Suc j" if "i \<le> j \<and> j < length tasks'" for j
    using that assms(3) by (auto simp: assms(6) nth_append min_def)
  show "fst (load_tasks (snd (remove_task rt s w))) = tasks'" if "json_ok (JArr tasks)"
  proof -
    have "json_ok (JArr tasks')" using that by (simp add: assms(6) json_ok_list_remove)
    then show ?thesis
      unfolding r by (intro load_tasks_dumped [where rt = rt]) simp_all
  qed
qed

theorem remove_task_removes_one_witness:
  "remove_task plain_runtime (ascii ''1'') two_tasks_world =
     (Done, two_tasks_world
              \<lparr>json_file := Some (json_dumps plain_runtime (JArr [two_tasks ! 1])),
               out := [ascii ''Task 1 removed: \"a\"''],
               ops := [Load, Store (json_dumps plain_runtime (JArr [two_tasks ! 1]))]\<rparr>)
   \<and> fst (load_tasks (snd (remove_task plain_runtime (ascii ''1'') two_tasks_world))) = [two_tasks ! 1]"
proof -
  have g: "getitem (two_tasks ! 0) (ascii ''description'') = Inr (JStr (ascii ''a''))"
    by (simp add: two_tasks_def getitem_def ascii_def)
  have t: "[two_tasks ! 1] = take 0 two_tasks @ drop (Suc 0) two_tasks"
    by (simp add: two_tasks_def)
  have l: "0 < length two_tasks" by (simp add: two_tasks_def)
  have w: "write_error two_tasks_world = None" by (simp add: two_tasks_world_fields)
  note th = remove_task_removes_one [OF py_int_1 load_two_tasks l g w t]
  from th json_ok_two_tasks
  have b: "fst (load_tasks (snd (remove_task plain_runtime (ascii ''1'') two_tasks_world)))
             = [two_tasks ! 1]"
    by blast
  from th have "remove_task plain_runtime (ascii ''1'') two_tasks_world =
     (Done, two_tasks_world
              \<lparr>json_file := Some (json_dumps plain_runtime (JArr [two_tasks ! 1])),
               out := out two_tasks_world
                      @ [ascii ''Task '' @ str_int (int 0 + 1) @ ascii '' removed: \"''
                         @ py_str plain_runtime (JStr (ascii ''a'')) @ ascii ''\"''],
               ops := ops two_tasks_world
                      @ [Load, Store (json_dumps plain_runtime (JArr [two_tasks ! 1]))]\<rparr>)"
    by blast
  then have a: "remove_task plain_runtime (ascii ''1'') two_tasks_world =
     (Done, two_tasks_world
              \<lparr>json_file := Some (json_dumps plain_runtime (JArr [two_tasks ! 1])),
               out := [ascii ''Task 1 removed: \"a\"''],
               ops := [Load, Store (json_dumps plain_runtime (JArr [two_tasks ! 1]))]\<rparr>)"
    by (simp add: two_tasks_world_fields py_str_def str_int_def str_nat.simps ascii_def)
  from a b show ?thesis by (rule conjI)
qed

text \<open>
  When the file cannot be opened for writing, \<open>save_tasks\<close> prints the error and
  \<open>remove_task\<close> still prints its confirmation: the file is unchanged and a later load
  returns both tasks.
\<close>

theorem remove_task_counterexample:
  "remove_task plain_runtime (ascii ''1'') locked_world =
     (Done, locked_world
              \<lparr>out := [ascii ''Error: Could not save tasks to tasks.json. Permission denied'',
                       ascii ''Task 1 removed: \"a\"''],
               ops := [Load, StoreFailed]\<rparr>)
   \<and> json_file (snd (remove_task plain_runtime (ascii ''1'') locked_world)) = json_file locked_world
   \<and> fst (load_tasks (snd (remove_task plain_runtime (ascii ''1'') locked_world))) = two_tasks"
proof -
  have g: "getitem (two_tasks ! 0) (ascii ''description'') = Inr (JStr (ascii ''a''))"
    by (simp add: two_tasks_def getitem_def ascii_def)
  have l: "0 < length two_tasks" by (simp add: two_tasks_def)
  have w: "write_error locked_world = Some (ascii ''Permission denied'')"
    by (simp add: locked_world_fields)
  have r: "remove_task plain_runtime (ascii ''1'') locked_world =
     (Done, locked_world
              \<lparr>out := [ascii ''Error: Could not save tasks to tasks.json. Permission denied'',
                       ascii ''Task 1 removed: \"a\"''],
               ops := [Load, StoreFailed]\<rparr>)"
    using remove_task_failed [OF py_int_1 load_locked_world l g w]
    by (simp add: locked_world_fields py_str_def str_int_def str_nat.simps JSON_FILE_def ascii_def)
  have "fst (load_tasks (locked_world\<lparr>out := x, ops := y\<rparr>)) = fst (load_tasks locked_world)" for x y
    by (simp add: load_tasks_def Let_def split: option.splits json.splits)
  then show ?thesis unfolding r by (simp add: load_locked_world)
qed

subsection \<open>C6: an index out of range\<close>

text \<open>
  Claim C6. For an integer index below 1 or above the length of the loaded list,
  \<open>complete_task\<close> and \<open>remove_task\<close> print \<open>Error: Task number n not found.\<close> and then
  \<open>You have no tasks.\<close> when the list is empty, \<open>Valid task numbers are 1 to N.\<close>
  otherwise, \<open>N\<close> its length. They only load: the task file is not written.
\<close>

theorem update_task_out_of_range:
  assumes "py_int rt s = Some n" and "fst (load_tasks w) = tasks"
    and "n < 1 \<or> int (length tasks) < n"
  shows "complete_task rt s w =
           (Done, w\<lparr>out := out w @ [ascii ''Error: Task number '' @ str_int n @ ascii '' not found.'',
                                    if tasks = [] then ascii ''You have no tasks.''
                                    else ascii ''Valid task numbers are 1 to ''
                                         @ str_int (int (length tasks)) @ ascii ''.''],
                    ops := ops w @ [Load]\<rparr>)
         \<and> remove_task rt s w =
           (Done, w\<lparr>out := out w @ [ascii ''Error: Task number '' @ str_int n @ ascii '' not found.'',
                                    if tasks = [] then ascii ''You have no tasks.''
                                    else ascii ''Valid task numbers are 1 to ''
                                         @ str_int (int (length tasks)) @ ascii ''.''],
                    ops := ops w @ [Load]\<rparr>)
         \<and> json_file (snd (complete_task rt s w)) = json_file w
         \<and> json_file (snd (remove_task rt s w)) = json_file w"
proof -
  have r: "n < 1 \<or> int (length (fst (load_tasks w))) < n" using assms(2,3) by simp
  have "update_task rt s action w =
           (Done, w\<lparr>out := out w @ [ascii ''Error: Task number '' @ str_int n @ ascii '' not found.'',
                                    if tasks = [] then ascii ''You have no tasks.''
                                    else ascii ''Valid task numbers are 1 to ''
                                         @ str_int (int (length tasks)) @ ascii ''.''],
                    ops := ops w @ [Load]\<rparr>)" for action
    using update_task_not_found [OF assms(1) r, of action] by (simp add: assms(2))
  then show ?thesis by (simp add: complete_task_def remove_task_def)
qed

text \<open>Index 5 on a file of two tasks, and index 0 on an absent file.\<close>

theorem update_task_out_of_range_witness:
  "remove_task plain_runtime (ascii ''5'') two_tasks_world =
     (Done, two_tasks_world\<lparr>out := [ascii ''Error: Task number 5 not found.'',
                                     ascii ''Valid task numbers are 1 to 2.''],
                             ops := [Load]\<rparr>)
   \<and> complete_task plain_runtime (ascii ''0'') empty_world =
     (Done, empty_world\<lparr>out := [ascii ''Error: Task number 0 not found.'',
                                 ascii ''You have no tasks.''],
                         ops := [Load]\<rparr>)"
proof -
  have r5: "(5::int) < 1 \<or> int (length two_tasks) < 5" by (simp add: two_tasks_def)
  have a: "remove_task plain_runtime (ascii ''5'') two_tasks_world =
     (Done, two_tasks_world\<lparr>out := [ascii ''Error: Task number 5 not found.'',
                                     ascii ''Valid task numbers are 1 to 2.''],
                             ops := [Load]\<rparr>)"
    using update_task_out_of_range [OF py_int_5 load_two_tasks r5, THEN conjunct2, THEN conjunct1]
    by (simp add: two_tasks_def two_tasks_world_fields str_int_def str_nat.simps ascii_def)
  have p0: "py_int plain_runtime (ascii ''0'') = Some 0" by (simp add: int_eval)
  have r0: "(0::int) < 1 \<or> int (length ([] :: json list)) < 0" by simp
  have b: "complete_task plain_runtime (ascii ''0'') empty_world =
     (Done, empty_world\<lparr>out := [ascii ''Error: Task number 0 not found.'',
                                 ascii ''You have no tasks.''],
                         ops := [Load]\<rparr>)"
    using update_task_out_of_range [OF p0 load_empty_world r0, THEN conjunct1]
    by (simp add: empty_world_fields str_int_def str_nat.simps ascii_def)
  from a b show ?thesis by (rule conjI)
qed

subsection \<open>C7: the exit status\<close>

text \<open>
  Claim C7. \<open>main\<close> ends through \<open>sys.exit\<close> in exactly two cases, no command and a
  command that is not one of the five names, and then with status 1; so a run from which
  no exception escapes has exit status 1 in exactly these two cases. The other user
  errors print their message, leave the task file unchanged and end normally, that is
  with status 0: a command without its argument, an index that is not an integer, an
  index out of range, and an empty description.
\<close>

theorem main_exit_status:
  "(fst (main rt argv w) = Exit n \<longleftrightarrow>
      n = 1 \<and> (length argv < 2 \<or> py_lower rt (argv ! 1) \<notin> set commands))
   \<and> ((\<forall>e. fst (main rt argv w) \<noteq> Raised e) \<longrightarrow>
        (exit_status (fst (main rt argv w)) = 1 \<longleftrightarrow>
           length argv < 2 \<or> py_lower rt (argv ! 1) \<notin> set commands))
   \<and> (length argv = 2
        \<and> py_lower rt (argv ! 1) \<in> {ascii ''add'', ascii ''complete'', ascii ''remove''} \<longrightarrow>
        exit_status (fst (main rt argv w)) = 0
        \<and> json_file (snd (main rt argv w)) = json_file w
        \<and> ops (snd (main rt argv w)) = ops w
        \<and> length (out (snd (main rt argv w))) = length (out w) + 2)
   \<and> (2 < length argv \<and> py_lower rt (argv ! 1) \<in> {ascii ''complete'', ascii ''remove''}
        \<and> py_int rt (argv ! 2) = None \<longrightarrow>
        exit_status (fst (main rt argv w)) = 0
        \<and> main rt argv w =
            (Done, w\<lparr>out := out w @ [ascii ''Error: Invalid task number '' @ [0x27] @ argv ! 2 @ [0x27]
                               @ ascii ''. Must be an integer.'']\<rparr>))
   \<and> (\<forall>k. 2 < length argv \<and> py_lower rt (argv ! 1) \<in> {ascii ''complete'', ascii ''remove''}
          \<and> py_int rt (argv ! 2) = Some k \<and> (k < 1 \<or> int (length (fst (load_tasks w))) < k) \<longrightarrow>
        exit_status (fst (main rt argv w)) = 0
        \<and> main rt argv w =
            (Done, w\<lparr>out := out w @ [ascii ''Error: Task number '' @ str_int k @ ascii '' not found.'',
                               if fst (load_tasks w) = [] then ascii ''You have no tasks.''
                               else ascii ''Valid task numbers are 1 to ''
                                    @ str_int (int (length (fst (load_tasks w)))) @ ascii ''.''],
              ops := ops w @ [Load]\<rparr>))
   \<and> (2 < length argv \<and> py_lower rt (argv ! 1) = ascii ''add''
        \<and> join (ascii '' '') (drop 2 argv) = [] \<longrightarrow>
        exit_status (fst (main rt argv w)) = 0
        \<and> main rt argv w = (Done, w\<lparr>out := out w @ [ascii ''Error: Cannot add an empty task.'']\<rparr>))"
proof (intro conjI allI impI)
  show e: "fst (main rt argv w) = Exit n \<longleftrightarrow>
      n = 1 \<and> (length argv < 2 \<or> py_lower rt (argv ! 1) \<notin> set commands)" for n
    by (rule main_exit_iff)
  show "exit_status (fst (main rt argv w)) = 1 \<longleftrightarrow>
           length argv < 2 \<or> py_lower rt (argv ! 1) \<notin> set commands"
    if nr: "\<forall>e. fst (main rt argv w) \<noteq> Raised e"
  proof (cases "fst (main rt argv w)")
    case Done
    then show ?thesis using e [of 1] by (simp add: exit_status_def)
  next
    case (Exit m)
    then show ?thesis using e [of m] e [of 1] by (simp add: exit_status_def)
  next
    case (Raised x)
    then show ?thesis using nr by simp
  qed
next
  assume h: "length argv = 2
        \<and> py_lower rt (argv ! 1) \<in> {ascii ''add'', ascii ''complete'', ascii ''remove''}"
  then have l: "\<not> length argv < 2" "length argv < 3" by simp_all
  from h consider (a) "py_lower rt (argv ! 1) = ascii ''add''"
    | (c) "py_lower rt (argv ! 1) = ascii ''complete''"
    | (r) "py_lower rt (argv ! 1) = ascii ''remove''"
    by blast
  then have "exit_status (fst (main rt argv w)) = 0
        \<and> json_file (snd (main rt argv w)) = json_file w
        \<and> ops (snd (main rt argv w)) = ops w
        \<and> length (out (snd (main rt argv w))) = length (out w) + 2"
  proof cases
    case a
    show ?thesis unfolding main_add [OF l(1) a] using l(2) by (simp add: exit_status_def py_print_def)
  next
    case c
    show ?thesis unfolding main_complete [OF l(1) c] using l(2) by (simp add: exit_status_def py_print_def)
  next
    case r
    show ?thesis unfolding main_remove [OF l(1) r] using l(2) by (simp add: exit_status_def py_print_def)
  qed
  then show "exit_status (fst (main rt argv w)) = 0"
    and "json_file (snd (main rt argv w)) = json_file w"
    and "ops (snd (main rt argv w)) = ops w"
    and "length (out (snd (main rt argv w))) = length (out w) + 2"
    by simp_all
next
  assume h: "2 < length argv \<and> py_lower rt (argv ! 1) \<in> {ascii ''complete'', ascii ''remove''}
        \<and> py_int rt (argv ! 2) = None"
  then have l: "\<not> length argv < 2" "\<not> length argv < 3" by simp_all
  from h have "main rt argv w = update_task rt (argv ! 2) (py_lower rt (argv ! 1)) w"
    using main_complete [OF l(1), of rt w] main_remove [OF l(1), of rt w] l(2) by auto
  moreover from h have "py_int rt (argv ! 2) = None" by simp
  ultimately have "main rt argv w =
     (Done, w\<lparr>out := out w @ [ascii ''Error: Invalid task number '' @ [0x27] @ argv ! 2 @ [0x27]
                              @ ascii ''. Must be an integer.'']\<rparr>)"
    by (simp add: update_task_invalid_number)
  then show "exit_status (fst (main rt argv w)) = 0"
    and "main rt argv w =
            (Done, w\<lparr>out := out w @ [ascii ''Error: Invalid task number '' @ [0x27] @ argv ! 2 @ [0x27]
                               @ ascii ''. Must be an integer.'']\<rparr>)"
    by (simp_all add: exit_status_def)
next
  fix k
  assume h: "2 < length argv \<and> py_lower rt (argv ! 1) \<in> {ascii ''complete'', ascii ''remove''}
          \<and> py_int rt (argv ! 2) = Some k \<and> (k < 1 \<or> int (length (fst (load_tasks w))) < k)"
  then have l: "\<not> length argv < 2" "\<not> length argv < 3" by simp_all
  from h have "main rt argv w = update_task rt (argv ! 2) (py_lower rt (argv ! 1)) w"
    using main_complete [OF l(1), of rt w] main_remove [OF l(1), of rt w] l(2) by auto
  moreover from h have "py_int rt (argv ! 2) = Some k"
    and "k < 1 \<or> int (length (fst (load_tasks w))) < k" by simp_all
  ultimately have "main rt argv w =
     (Done, w\<lparr>out := out w @ [ascii ''Error: Task number '' @ str_int k @ ascii '' not found.'',
                              if fst (load_tasks w) = [] then ascii ''You have no tasks.''
                              else ascii ''Valid task numbers are 1 to ''
                                   @ str_int (int (length (fst (load_tasks w)))) @ ascii ''.''],
              ops := ops w @ [Load]\<rparr>)"
    by (simp only: update_task_not_found)
  then show "exit_status (fst (main rt argv w)) = 0"
    and "main rt argv w =
            (Done, w\<lparr>out := out w @ [ascii ''Error: Task number '' @ str_int k @ ascii '' not found.'',
                               if fst (load_tasks w) = [] then ascii ''You have no tasks.''
                               else ascii ''Valid task numbers are 1 to ''
                                    @ str_int (int (length (fst (load_tasks w)))) @ ascii ''.''],
              ops := ops w @ [Load]\<rparr>)"
    by (simp_all add: exit_status_def)
next
  assume h: "2 < length argv \<and> py_lower rt (argv ! 1) = ascii ''add''
        \<and> join (ascii '' '') (drop 2 argv) = []"
  then have l: "\<not> length argv < 2" "\<not> length argv < 3" by simp_all
  from h have a: "py_lower rt (argv ! 1) = ascii ''add''" by simp
  have "main rt argv w = (Done, w\<lparr>out := out w @ [ascii ''Error: Cannot add an empty task.'']\<rparr>)"
    unfolding main_add [OF l(1) a] using l(2) h by (simp add: add_task_empty)
  then show "exit_status (fst (main rt argv w)) = 0"
    and "main rt argv w = (Done, w\<lparr>out := out w @ [ascii ''Error: Cannot add an empty task.'']\<rparr>)"
    by (simp_all add: exit_status_def)
qed

text \<open>
  One run for each case: no command, an unknown command, \<open>complete\<close> without a number,
  \<open>complete abc\<close>, \<open>remove 5\<close> on two tasks, and \<open>add\<close> with an empty description.
\<close>

theorem main_exit_status_witness:
  "exit_status (fst (main plain_runtime [ascii ''task_tracker.py''] two_tasks_world)) = 1
   \<and> exit_status (fst (main plain_runtime [ascii ''task_tracker.py'', ascii ''Frobnicate'']
                         two_tasks_world)) = 1
   \<and> exit_status (fst (main plain_runtime [ascii ''task_tracker.py'', ascii ''complete'']
                         two_tasks_world)) = 0
   \<and> main plain_runtime [ascii ''task_tracker.py'', ascii ''Complete'', ascii ''abc''] two_tasks_world
       = (Done, two_tasks_world\<lparr>out := [ascii ''Error: Invalid task number 'abc'. Must be an integer.'']\<rparr>)
   \<and> main plain_runtime [ascii ''task_tracker.py'', ascii ''remove'', ascii ''5''] two_tasks_world
       = (Done, two_tasks_world\<lparr>out := [ascii ''Error: Task number 5 not found.'',
                                        ascii ''Valid task numbers are 1 to 2.''],
                                ops := [Load]\<rparr>)
   \<and> main plain_runtime [ascii ''task_tracker.py'', ascii ''add'', []] two_tasks_world
       = (Done, two_tasks_world\<lparr>out := [ascii ''Error: Cannot add an empty task.'']\<rparr>)"
proof -
  define a1 where "a1 = [ascii ''task_tracker.py'']"
  define a2 where "a2 = [ascii ''task_tracker.py'', ascii ''Frobnicate'']"
  define a3 where "a3 = [ascii ''task_tracker.py'', ascii ''complete'']"
  define a4 where "a4 = [ascii ''task_tracker.py'', ascii ''Complete'', ascii ''abc'']"
  define a5 where "a5 = [ascii ''task_tracker.py'', ascii ''remove'', ascii ''5'']"
  define a6 where "a6 = [ascii ''task_tracker.py'', ascii ''add'', ([] :: ustr)]"
  note lower = py_lower_def ascii_lower_def commands_def ascii_def
  have "length a1 < 2 \<or> py_lower plain_runtime (a1 ! 1) \<notin> set commands"
    by (simp add: a1_def)
  then have "fst (main plain_runtime a1 two_tasks_world) = Exit 1"
    using main_exit_status [of plain_runtime a1 two_tasks_world 1, THEN conjunct1] by simp
  then have n1: "\<forall>e. fst (main plain_runtime a1 two_tasks_world) \<noteq> Raised e"
    by simp
  have c1: "exit_status (fst (main plain_runtime a1 two_tasks_world)) = 1"
    using main_exit_status [of plain_runtime a1 two_tasks_world 1,
        THEN conjunct2, THEN conjunct1, THEN mp, OF n1]
    by (simp add: a1_def)
  have "length a2 < 2 \<or> py_lower plain_runtime (a2 ! 1) \<notin> set commands"
    by (simp add: a2_def lower)
  then have "fst (main plain_runtime a2 two_tasks_world) = Exit 1"
    using main_exit_status [of plain_runtime a2 two_tasks_world 1, THEN conjunct1] by simp
  then have c2: "exit_status (fst (main plain_runtime a2 two_tasks_world)) = 1"
    by (simp add: exit_status_def)
  have p3: "length a3 = 2
        \<and> py_lower plain_runtime (a3 ! 1) \<in> {ascii ''add'', ascii ''complete'', ascii ''remove''}"
    by (simp add: a3_def lower)
  have c3: "exit_status (fst (main plain_runtime a3 two_tasks_world)) = 0"
    using main_exit_status [of plain_runtime a3 two_tasks_world 1,
        THEN conjunct2, THEN conjunct2, THEN conjunct1, THEN mp, OF p3]
    by (rule conjunct1)
  have p4: "2 < length a4 \<and> py_lower plain_runtime (a4 ! 1) \<in> {ascii ''complete'', ascii ''remove''}
        \<and> py_int plain_runtime (a4 ! 2) = None"
    by (simp add: a4_def py_int_abc) (simp add: lower)
  have c4: "main plain_runtime a4 two_tasks_world
       = (Done, two_tasks_world\<lparr>out := [ascii ''Error: Invalid task number 'abc'. Must be an integer.'']\<rparr>)"
    using main_exit_status [of plain_runtime a4 two_tasks_world 1,
        THEN conjunct2, THEN conjunct2, THEN conjunct2, THEN conjunct1, THEN mp, OF p4,
        THEN conjunct2]
    by (simp add: a4_def two_tasks_world_fields ascii_def)
  have p5: "2 < length a5 \<and> py_lower plain_runtime (a5 ! 1) \<in> {ascii ''complete'', ascii ''remove''}
          \<and> py_int plain_runtime (a5 ! 2) = Some 5
          \<and> ((5::int) < 1 \<or> int (length (fst (load_tasks two_tasks_world))) < 5)"
    by (simp add: a5_def py_int_5 load_two_tasks two_tasks_def) (simp add: lower)
  have c5: "main plain_runtime a5 two_tasks_world
       = (Done, two_tasks_world\<lparr>out := [ascii ''Error: Task number 5 not found.'',
                                        ascii ''Valid task numbers are 1 to 2.''],
                                ops := [Load]\<rparr>)"
    using main_exit_status [of plain_runtime a5 two_tasks_world 1,
        THEN conjunct2, THEN conjunct2, THEN conjunct2, THEN conjunct2, THEN conjunct1,
        THEN spec, THEN mp, OF p5, THEN conjunct2]
    by (simp add: a5_def load_two_tasks two_tasks_def two_tasks_world_fields
          str_int_def str_nat.simps ascii_def)
  have p6: "2 < length a6 \<and> py_lower plain_runtime (a6 ! 1) = ascii ''add''
        \<and> join (ascii '' '') (drop 2 a6) = []"
    by (simp add: a6_def) (simp add: lower)
  have c6: "main plain_runtime a6 two_tasks_world
       = (Done, two_tasks_world\<lparr>out := [ascii ''Error: Cannot add an empty task.'']\<rparr>)"
    using main_exit_status [of plain_runtime a6 two_tasks_world 1,
        THEN conjunct2, THEN conjunct2, THEN conjunct2, THEN conjunct2, THEN conjunct2,
        THEN mp, OF p6, THEN conjunct2]
    by (simp add: a6_def two_tasks_world_fields)
  from c1 c2 c3 c4 c5 c6 show ?thesis
    unfolding a1_def a2_def a3_def a4_def a5_def a6_def by (intro conjI)
qed

text \<open>
  A run of the recognised command \<open>list\<close> on a task file that holds \<open>[5]\<close> ends with the
  uncaught \<open>AttributeError\<close>, hence with exit status 1 too.
\<close>

theorem main_exit_status_counterexample:
  "main plain_runtime [ascii ''task_tracker.py'', ascii ''list''] scalar_entry_world
     = (Raised AttributeError,
        scalar_entry_world\<lparr>out := [ascii ''--- Your Tasks ---''], ops := [Load]\<rparr>)
   \<and> exit_status (Raised AttributeError) = 1
   \<and> py_lower plain_runtime (ascii ''list'') \<in> set commands"
proof (intro conjI)
  have p: "py_lower plain_runtime (ascii ''list'') = ascii ''list''"
    by (simp add: py_lower_def ascii_lower_def ascii_def)
  from list_scalar_entry show "main plain_runtime [ascii ''task_tracker.py'', ascii ''list''] scalar_entry_world
     = (Raised AttributeError,
        scalar_entry_world\<lparr>out := [ascii ''--- Your Tasks ---''], ops := [Load]\<rparr>)"
    using p by (simp add: main_list)
  show "exit_status (Raised AttributeError) = 1" by (simp add: exit_status_def)
  show "py_lower plain_runtime (ascii ''list'') \<in> set commands"
    by (simp add: p commands_def)
qed

subsection \<open>C8: saving, then loading\<close>

text \<open>
  Claim C8. For a task list of JSON data without floats, with distinct keys in every
  object and no string in which a high surrogate is directly followed by a low one
  (\<open>json_ok\<close>), and a task file that can be written: \<open>save_tasks\<close> followed by
  \<open>load_tasks\<close> returns the very list that was saved, so its length, its order and every
  field of every task.
\<close>

theorem save_then_load_roundtrip:
  assumes "write_error w = None" and "json_ok (JArr tasks)"
  shows "fst (load_tasks (save_tasks rt tasks w)) = tasks"
  using assms by (rule load_after_save)

theorem save_then_load_roundtrip_witness:
  "fst (load_tasks (save_tasks plain_runtime two_tasks empty_world)) = two_tasks"
proof -
  have "write_error empty_world = None" by (simp add: empty_world_fields)
  then show ?thesis using json_ok_two_tasks by (rule save_then_load_roundtrip)
qed

text \<open>
  When the file cannot be opened for writing nothing is stored, and the load returns the
  empty list of the absent file. And a description that holds the two surrogates
  \<open>D83D DE00\<close> is written as two escapes of four hex digits, which the decoder joins to the one
  character \<open>1F600\<close>.
\<close>

theorem save_then_load_counterexample:
  "fst (load_tasks (save_tasks plain_runtime two_tasks read_only_world)) = []
   \<and> two_tasks \<noteq> []
   \<and> fst (load_tasks (save_tasks plain_runtime [new_task [0xD83D, 0xDE00]] empty_world))
       = [new_task [0x1F600]]
   \<and> new_task [0x1F600] \<noteq> new_task [0xD83D, 0xDE00]"
proof (intro conjI)
  show "fst (load_tasks (save_tasks plain_runtime two_tasks read_only_world)) = []"
    by (simp add: save_tasks_def load_tasks_def read_only_world_def py_print_def)
  show "two_tasks \<noteq> []" by (simp add: two_tasks_def)
  show "fst (load_tasks (save_tasks plain_runtime [new_task [0xD83D, 0xDE00]] empty_world))
          = [new_task [0x1F600]]"
    by (simp add: save_tasks_def load_tasks_def empty_world_def new_task_def dump_eval2 parse_eval2)
  show "new_task [0x1F600] \<noteq> new_task [0xD83D, 0xDE00]"
    by (simp add: new_task_def)
qed

subsection \<open>C9: completing a task changes its status only\<close>

text \<open>
  Claim C9. For a valid 1-based index \<open>i + 1\<close> whose task is a dict with a status other
  than \<open>complete\<close>, \<open>complete_task\<close> hands to \<open>save_tasks\<close> the list \<open>tasks'\<close> that differs
  from the loaded one at position \<open>i\<close> only; there the dict keeps its keys and their order
  and every value but the status, the description among them, and the status is
  \<open>complete\<close>. The file holds this list unless it cannot be written, and a later load
  returns it.
\<close>

theorem complete_task_changes_only_status:
  assumes "py_int rt s = Some (int i + 1)" and "fst (load_tasks w) = tasks" and "i < length tasks"
    and "tasks ! i = JObj d" and "map_of d (ascii ''status'') = Some st"
    and "st \<noteq> JStr (ascii ''complete'')"
    and "d' = dict_set (ascii ''status'') (JStr (ascii ''complete'')) d"
    and "tasks' = tasks[i := JObj d']"
  shows "json_file (snd (complete_task rt s w))
           = (case write_error w of
                None \<Rightarrow> Some (json_dumps rt (JArr tasks'))
              | Some e \<Rightarrow> json_file w)
         \<and> length tasks' = length tasks
         \<and> (\<forall>j. j < length tasks \<and> j \<noteq> i \<longrightarrow> tasks' ! j = tasks ! j)
         \<and> tasks' ! i = JObj d'
         \<and> map fst d' = map fst d
         \<and> (\<forall>k. k \<noteq> ascii ''status'' \<longrightarrow> map_of d' k = map_of d k)
         \<and> map_of d' (ascii ''description'') = map_of d (ascii ''description'')
         \<and> map_of d' (ascii ''status'') = Some (JStr (ascii ''complete''))
         \<and> (json_ok (JArr tasks) \<and> write_error w = None \<longrightarrow>
              fst (load_tasks (snd (complete_task rt s w))) = tasks')"
proof (intro conjI allI impI)
  show f: "json_file (snd (complete_task rt s w))
           = (case write_error w of
                None \<Rightarrow> Some (json_dumps rt (JArr tasks'))
              | Some e \<Rightarrow> json_file w)"
    unfolding assms(7,8) using complete_task_saved [OF assms(1-6)] by simp
  show "length tasks' = length tasks" by (simp add: assms(8))
  show "tasks' ! j = tasks ! j" if "j < length tasks \<and> j \<noteq> i" for j
    using that by (simp add: assms(8))
  show "tasks' ! i = JObj d'" using assms(3) by (simp add: assms(8))
  have k: "ascii ''status'' \<in> fst ` set d"
    using assms(5) by (metis map_of_SomeD fst_conv image_eqI)
  show "map fst d' = map fst d" using k by (simp add: assms(7) dict_set_keys)
  show "map_of d' k = map_of d k" if "k \<noteq> ascii ''status''" for k
    using that by (simp add: assms(7) map_of_dict_set)
  show "map_of d' (ascii ''description'') = map_of d (ascii ''description'')"
    by (simp add: assms(7) map_of_dict_set ascii_def)
  show "map_of d' (ascii ''status'') = Some (JStr (ascii ''complete''))"
    by (simp add: assms(7) map_of_dict_set)
  show "fst (load_tasks (snd (complete_task rt s w))) = tasks'"
    if h: "json_ok (JArr tasks) \<and> write_error w = None"
  proof -
    have "json_ok (tasks ! i)" using h assms(3) by (simp add: json_ok_list_nth)
    then have "json_ok (JObj d')"
      unfolding assms(4,7) using text_ok_status by (intro json_ok_dict_set) simp_all
    with h have ok: "json_ok (JArr tasks')" by (simp add: assms(8) json_ok_list_update)
    have "json_file (snd (complete_task rt s w)) = Some (json_dumps rt (JArr tasks'))"
      using f h by simp
    then show ?thesis using ok by (rule load_tasks_dumped)
  qed
qed

theorem complete_task_changes_only_status_witness:
  "fst (load_tasks (snd (complete_task plain_runtime (ascii ''1'') two_tasks_world)))
     = [JObj [(ascii ''description'', JStr (ascii ''a'')), (ascii ''status'', JStr (ascii ''complete''))],
        two_tasks ! 1]"
proof -
  have d: "two_tasks ! 0
             = JObj [(ascii ''description'', JStr (ascii ''a'')), (ascii ''status'', JStr (ascii ''pending''))]"
    by (simp add: two_tasks_def)
  have m: "map_of [(ascii ''description'', JStr (ascii ''a'')), (ascii ''status'', JStr (ascii ''pending''))]
             (ascii ''status'') = Some (JStr (ascii ''pending''))"
    by (simp add: ascii_def)
  have n: "JStr (ascii ''pending'') \<noteq> JStr (ascii ''complete'')" by (simp add: ascii_def)
  have l: "0 < length two_tasks" by (simp add: two_tasks_def)
  have w: "write_error two_tasks_world = None" by (simp add: two_tasks_world_fields)
  have d': "[(ascii ''description'', JStr (ascii ''a'')), (ascii ''status'', JStr (ascii ''complete''))]
              = dict_set (ascii ''status'') (JStr (ascii ''complete''))
                  [(ascii ''description'', JStr (ascii ''a'')), (ascii ''status'', JStr (ascii ''pending''))]"
    by (simp add: ascii_def)
  have t: "[JObj [(ascii ''description'', JStr (ascii ''a'')), (ascii ''status'', JStr (ascii ''complete''))],
            two_tasks ! 1]
           = two_tasks[0 := JObj [(ascii ''description'', JStr (ascii ''a'')),
                                  (ascii ''status'', JStr (ascii ''complete''))]]"
    by (simp add: two_tasks_def)
  from complete_task_changes_only_status [OF py_int_1 load_two_tasks l d m n d' t]
    json_ok_two_tasks w
  show ?thesis by blast
qed

subsection \<open>C10: listing entries with odd fields\<close>

text \<open>
  Claim C10. When every entry of the loaded list is a dict, \<open>list_tasks\<close> prints the
  header, one line for each entry and the footer, and ends normally, whatever the fields
  of the entries are. The marker of an entry is \<open>[ ]\<close> unless its status is exactly the
  string \<open>complete\<close>, so also when there is no status; an entry without a description is
  printed with \<open>No description\<close> in its place.
\<close>

theorem list_tasks_tolerates_malformed_fields:
  assumes "fst (load_tasks w) = tasks" and "tasks \<noteq> []" and "list_all is_dict tasks"
  shows "list_tasks rt w =
           (Done, w\<lparr>out := out w @ [ascii ''--- Your Tasks ---'']
                           @ map (\<lambda>(i, t). task_line rt i (the_dict t)) (zip [1 ..< 1 + length tasks] tasks)
                           @ [ascii ''------------------''],
                    ops := ops w @ [Load]\<rparr>)
         \<and> (\<forall>d. map_of d (ascii ''status'') \<noteq> Some (JStr (ascii ''complete'')) \<longrightarrow>
               status_icon d = ascii ''[ ]'')
         \<and> (\<forall>i d. map_of d (ascii ''description'') = None \<longrightarrow>
               task_line rt i d
                 = ascii ''  '' @ str_int (int i) @ ascii ''. '' @ status_icon d @ ascii '' No description'')"
proof (intro conjI allI impI)
  show "list_tasks rt w =
           (Done, w\<lparr>out := out w @ [ascii ''--- Your Tasks ---'']
                           @ map (\<lambda>(i, t). task_line rt i (the_dict t)) (zip [1 ..< 1 + length tasks] tasks)
                           @ [ascii ''------------------''],
                    ops := ops w @ [Load]\<rparr>)"
    using assms by (rule list_tasks_dicts)
next
  fix d :: "(ustr \<times> json) list"
  assume "map_of d (ascii ''status'') \<noteq> Some (JStr (ascii ''complete''))"
  then show "status_icon d = ascii ''[ ]''"
    by (simp add: status_icon_def)
next
  fix i and d :: "(ustr \<times> json) list"
  assume "map_of d (ascii ''description'') = None"
  then show "task_line rt i d
                 = ascii ''  '' @ str_int (int i) @ ascii ''. '' @ status_icon d @ ascii '' No description''"
    by (simp add: task_line_def py_str_def ascii_def)
qed

text \<open>
  A file whose first task has the number 1 as status and no description, and whose second
  task is complete.
\<close>

theorem list_tasks_tolerates_malformed_fields_witness:
  "list_tasks plain_runtime odd_tasks_world =
     (Done, odd_tasks_world\<lparr>out := [ascii ''--- Your Tasks ---'',
                                     ascii ''  1. [ ] No description'',
                                     ascii ''  2. [x] b'',
                                     ascii ''------------------''],
                             ops := [Load]\<rparr>)
   \<and> status_icon [(ascii ''status'', JInt 1)] = ascii ''[ ]''
   \<and> task_line plain_runtime 1 [(ascii ''status'', JInt 1)] = ascii ''  1. [ ] No description''"
proof -
  have l: "fst (load_tasks odd_tasks_world)
             = [JObj [(ascii ''status'', JInt 1)],
                JObj [(ascii ''description'', JStr (ascii ''b'')), (ascii ''status'', JStr (ascii ''complete''))]]"
    by (simp add: load_tasks_def odd_tasks_world_def parse_eval)
  have n: "[JObj [(ascii ''status'', JInt 1)],
            JObj [(ascii ''description'', JStr (ascii ''b'')), (ascii ''status'', JStr (ascii ''complete''))]]
           \<noteq> []"
    by simp
  have d: "list_all is_dict
             [JObj [(ascii ''status'', JInt 1)],
              JObj [(ascii ''description'', JStr (ascii ''b'')), (ascii ''status'', JStr (ascii ''complete''))]]"
    by (simp add: is_dict_def)
  note th = list_tasks_tolerates_malformed_fields [OF l n d, of plain_runtime]
  have a: "list_tasks plain_runtime odd_tasks_world =
     (Done, odd_tasks_world\<lparr>out := [ascii ''--- Your Tasks ---'',
                                     ascii ''  1. [ ] No description'',
                                     ascii ''  2. [x] b'',
                                     ascii ''------------------''],
                             ops := [Load]\<rparr>)"
    using th [THEN conjunct1]
    by (simp add: the_dict_def task_line_def status_icon_def py_str_def odd_tasks_world_fields
          str_int_def str_nat.simps ascii_def upt_conv_Cons)
  have s: "map_of [(ascii ''status'', JInt 1)] (ascii ''status'') \<noteq> Some (JStr (ascii ''complete''))"
    by simp
  have b: "status_icon [(ascii ''status'', JInt 1)] = ascii ''[ ]''"
    using th [THEN conjunct2, THEN conjunct1, THEN spec, THEN mp, OF s] .
  have m: "map_of [(ascii ''status'', JInt 1)] (ascii ''description'') = None"
    by (simp add: ascii_def)
  have c: "task_line plain_runtime 1 [(ascii ''status'', JInt 1)] = ascii ''  1. [ ] No description''"
    using th [THEN conjunct2, THEN conjunct2, THEN spec, THEN spec, THEN mp, OF m] b
    by (simp add: str_int_def str_nat.simps ascii_def)
  from a b c show ?thesis by (intro conjI)
qed

text \<open>
  An entry that is not a dict has no \<open>get\<close>: on the file \<open>[5]\<close> the header is printed and
  \<open>AttributeError\<close> escapes.
\<close>

theorem list_tasks_scalar_entry_counterexample:
  "fst (load_tasks scalar_entry_world) = [JInt 5]
   \<and> list_tasks plain_runtime scalar_entry_world
       = (Raised AttributeError,
          scalar_entry_world\<lparr>out := [ascii ''--- Your Tasks ---''], ops := [Load]\<rparr>)"
  using load_scalar_entry list_scalar_entry by (rule conjI)

end
